theory Spec2Isabelle
  imports Main "HOL-Library.Word"
begin

section \<open>Machine integers, addresses and clock values\<close>

text \<open>
  Every counter and threshold of the pool is a C++ \<^verbatim>\<open>int\<close> or a
  \<^verbatim>\<open>std::atomic_int\<close>: a 32-bit word, compared as a signed number
  (\<open>sint\<close>). The queue's \<^verbatim>\<open>size()\<close> is a \<^verbatim>\<open>size_t\<close>; the
  length of the modelled queue is a natural number. Heap objects (tasks, result slots, packaged
  tasks) are referred to by address. Points in time are ticks of
  \<^verbatim>\<open>std::chrono::high_resolution_clock\<close>, taken as nanoseconds.
\<close>

type_synonym cint = "32 word"
type_synonym ulong = "64 word"
type_synonym addr = nat
type_synonym time_point = int

definition size_t_of_int :: "cint \<Rightarrow> nat" where
  \<comment> \<open>the cast \<^verbatim>\<open>(size_t)x\<close> of an int: sign extension to 64 bits\<close>
  "size_t_of_int x = unat (scast x :: ulong)"

definition INT32_MAX :: cint where
  "INT32_MAX = 2147483647"

definition TASK_MAX_THRESHHOLD :: cint where
  "TASK_MAX_THRESHHOLD = INT32_MAX"

definition THREAD_MAX_THRESHHOLD :: cint where
  "THREAD_MAX_THRESHHOLD = 10"

definition THREAD_MAX_IDLE_TIME :: int where
  "THREAD_MAX_IDLE_TIME = 60"

definition duration_cast_seconds :: "int \<Rightarrow> int" where
  \<comment> \<open>\<^verbatim>\<open>duration_cast<seconds>(d).count()\<close> of a nanosecond duration:
      division truncating towards zero\<close>
  "duration_cast_seconds d = sgn d * (\<bar>d\<bar> div 1000000000)"

section \<open>The pool and its worker threads\<close>

datatype PoolMode = MODE_FIXED | MODE_CACHED

text \<open>
  The place a worker thread has reached in \<^verbatim>\<open>threadFunc\<close>. A step of the model is
  one stretch of code run without giving up the queue mutex: it ends where the mutex is
  released (the end of the locked block, a wait on a condition variable, a
  \<^verbatim>\<open>return\<close>).
\<close>

datatype wpc =
    Spawned          \<comment> \<open>\<^verbatim>\<open>Thread::start\<close> has created the thread\<close>
  | Fetching         \<comment> \<open>holds the mutex, about to test \<^verbatim>\<open>taskQue_.size()==0\<close>\<close>
  | WaitCached       \<comment> \<open>inside \<^verbatim>\<open>notEmpty_.wait_for(lock, 1s)\<close>\<close>
  | WaitFixed        \<comment> \<open>inside \<^verbatim>\<open>notEmpty_.wait(lock)\<close>\<close>
  | Executing addr   \<comment> \<open>mutex released, running the dequeued task\<close>
  | Retired          \<comment> \<open>\<^verbatim>\<open>threadFunc\<close> has returned\<close>

record worker =
  threadid :: cint          \<comment> \<open>the argument of \<^verbatim>\<open>threadFunc\<close>\<close>
  pc :: wpc
  lastTime :: time_point

text \<open>
  Where the thread that runs the destructor stands. \<^verbatim>\<open>exitCond_.wait(lock, pred)\<close>
  tests its predicate when it is entered and again each time the wait is woken.
\<close>

datatype dtor_pc =
    DtorNotCalled
  | DtorEntered      \<comment> \<open>\<^verbatim>\<open>isPoolRunning_ = false\<close> is done, the mutex not yet taken\<close>
  | DtorWaiting      \<comment> \<open>asleep in \<^verbatim>\<open>exitCond_.wait\<close>\<close>
  | DtorNotified     \<comment> \<open>woken by \<^verbatim>\<open>exitCond_.notify_all()\<close>, predicate not yet tested again\<close>
  | DtorReturned

record pool_state =
  generateId :: cint                \<comment> \<open>\<^verbatim>\<open>Thread::generateId_\<close>, static\<close>
  threads :: "cint list"            \<comment> \<open>the keys of \<^verbatim>\<open>threads_\<close>\<close>
  initThreadSize :: cint
  threadSizeThreshHold :: cint
  curThreadSize :: cint
  idleThreadSize :: cint
  taskQue :: "addr list"            \<comment> \<open>front of the queue first\<close>
  taskSize :: cint
  taskQueMaxThreshHold :: cint
  poolMode :: PoolMode
  isPoolRunning :: bool
  workers :: "nat \<rightharpoonup> worker"    \<comment> \<open>the detached threads running \<^verbatim>\<open>threadFunc\<close>,
                                         numbered in the order of their creation\<close>
  spawned :: nat                    \<comment> \<open>how many threads have been created\<close>
  dtor :: dtor_pc

definition checkRunningState :: "'z pool_state_scheme \<Rightarrow> bool" where
  "checkRunningState s = isPoolRunning s"

definition setMode :: "PoolMode \<Rightarrow> 'z pool_state_scheme \<Rightarrow> 'z pool_state_scheme" where
  "setMode mode s = (if checkRunningState s then s else s\<lparr>poolMode := mode\<rparr>)"

definition setInitThreadSize :: "cint \<Rightarrow> 'z pool_state_scheme \<Rightarrow> 'z pool_state_scheme" where
  "setInitThreadSize sz s = s\<lparr>initThreadSize := sz\<rparr>"

definition setTaskQueMaxThreshHold ::
  "cint \<Rightarrow> 'z pool_state_scheme \<Rightarrow> 'z pool_state_scheme" where
  "setTaskQueMaxThreshHold threshHold s =
     (if checkRunningState s then s else s\<lparr>taskQueMaxThreshHold := threshHold\<rparr>)"

definition setThreadSizeThreshHold ::
  "cint \<Rightarrow> 'z pool_state_scheme \<Rightarrow> 'z pool_state_scheme" where
  "setThreadSizeThreshHold threshHold s =
     (if checkRunningState s then s
      else if poolMode s = MODE_CACHED then s\<lparr>threadSizeThreshHold := threshHold\<rparr>
      else s)"

definition ThreadPool :: "cint \<Rightarrow> 'z \<Rightarrow> 'z pool_state_scheme" where
  \<comment> \<open>the constructor; \<open>g\<close> is the value \<^verbatim>\<open>Thread::generateId_\<close> has when the
      pool is built, \<open>z\<close> the heap of the pool variant\<close>
  "ThreadPool g z =
     \<lparr>generateId = g, threads = [], initThreadSize = 4, threadSizeThreshHold = THREAD_MAX_THRESHHOLD,
      curThreadSize = 0, idleThreadSize = 0, taskQue = [], taskSize = 0,
      taskQueMaxThreshHold = TASK_MAX_THRESHHOLD, poolMode = MODE_FIXED, isPoolRunning = False,
      workers = Map.empty, spawned = 0, dtor = DtorNotCalled, \<dots> = z\<rparr>"

section \<open>Steps, their labels and their outcomes\<close>

datatype condvar = notFull | notEmpty | exitCond

datatype exit_reason =
    PoolShutdown   \<comment> \<open>the \<^verbatim>\<open>return\<close> under \<^verbatim>\<open>if(!isPoolRunning_)\<close>\<close>
  | IdleTimeout    \<comment> \<open>the \<^verbatim>\<open>return\<close> under the idle-time test\<close>

text \<open>What a step did, in the order the code does it.\<close>

datatype label =
    NotifyAll condvar
  | Enqueued addr             \<comment> \<open>\<^verbatim>\<open>taskQue_.emplace\<close>\<close>
  | Dequeued addr             \<comment> \<open>\<^verbatim>\<open>taskQue_.front(); taskQue_.pop()\<close>\<close>
  | ThreadStarted cint        \<comment> \<open>\<^verbatim>\<open>Thread::start\<close>\<close>
  | ThreadExit cint exit_reason

datatype exn = Exn string

datatype 'a completion = Returned 'a | Thrown exn

datatype error =
    NullPointer       \<comment> \<open>a null or dangling pointer is dereferenced\<close>
  | Terminate exn     \<comment> \<open>an exception leaves the thread function: \<^verbatim>\<open>std::terminate\<close>\<close>

datatype 'a result =
    Blocked                     \<comment> \<open>the caller stays suspended (or the step is not the
                                    thread's next one)\<close>
  | Abort error                 \<comment> \<open>the process dies\<close>
  | Done "label list" 'a

datatype cv_status = no_timeout | timeout

section \<open>Threads\<close>

definition Thread_new :: "'z pool_state_scheme \<Rightarrow> cint \<times> 'z pool_state_scheme" where
  \<comment> \<open>the constructor of \<^verbatim>\<open>Thread\<close>: \<^verbatim>\<open>threadId_(generateId_++)\<close>\<close>
  "Thread_new s = (generateId s, s\<lparr>generateId := generateId s + 1\<rparr>)"

definition threads_emplace :: "cint \<Rightarrow> 'z pool_state_scheme \<Rightarrow> 'z pool_state_scheme" where
  \<comment> \<open>\<^verbatim>\<open>threads_.emplace(threadId, ...)\<close>: no effect on a key already present\<close>
  "threads_emplace tid s =
     (if tid \<in> set (threads s) then s else s\<lparr>threads := threads s @ [tid]\<rparr>)"

definition threads_erase :: "cint \<Rightarrow> 'z pool_state_scheme \<Rightarrow> 'z pool_state_scheme" where
  "threads_erase tid s = s\<lparr>threads := removeAll tid (threads s)\<rparr>"

definition Thread_start :: "cint \<Rightarrow> 'z pool_state_scheme \<Rightarrow> 'z pool_state_scheme" where
  \<comment> \<open>\<^verbatim>\<open>std::thread t(func_, threadId_); t.detach()\<close>: one more thread, whatever
      threads already run with that id\<close>
  "Thread_start tid s =
     s\<lparr>workers := (workers s)(spawned s \<mapsto> \<lparr>threadid = tid, pc = Spawned, lastTime = 0\<rparr>),
       spawned := spawned s + 1\<rparr>"

fun start_create :: "nat list \<Rightarrow> 'z pool_state_scheme \<Rightarrow> 'z pool_state_scheme" where
  \<comment> \<open>the first loop of \<^verbatim>\<open>start\<close>, over the values of \<open>i\<close>\<close>
  "start_create [] s = s"
| "start_create (i # is) s =
     (let (tid, s1) = Thread_new s in start_create is (threads_emplace tid s1))"

fun start_run ::
  "nat list \<Rightarrow> label list \<Rightarrow> 'z pool_state_scheme \<Rightarrow> 'z pool_state_scheme result" where
  \<comment> \<open>the second loop of \<^verbatim>\<open>start\<close>: \<^verbatim>\<open>threads_[i]->start()\<close> for each
      \<open>i\<close>; on a key that is absent \<^verbatim>\<open>operator[]\<close> yields a null pointer\<close>
  "start_run [] ls s = Done ls s"
| "start_run (i # is) ls s =
     (if of_nat i \<in> set (threads s)
      then start_run is (ls @ [ThreadStarted (of_nat i)])
             ((Thread_start (of_nat i) s)\<lparr>idleThreadSize := idleThreadSize s + 1\<rparr>)
      else Abort NullPointer)"

definition start :: "cint \<Rightarrow> 'z pool_state_scheme \<Rightarrow> 'z pool_state_scheme result" where
  "start n s =
     (let s1 = s\<lparr>isPoolRunning := True, initThreadSize := n, curThreadSize := n\<rparr>;
          k = nat (sint n)
      in start_run [0..<k] [] (start_create [0..<k] s1))"

section \<open>Submission: the part both pools share\<close>

definition notFull_pred :: "'z pool_state_scheme \<Rightarrow> bool" where
  \<comment> \<open>the predicate of \<^verbatim>\<open>notFull_.wait_for\<close>\<close>
  "notFull_pred s \<longleftrightarrow> length (taskQue s) < size_t_of_int (taskQueMaxThreshHold s)"

definition enqueue_task :: "addr \<Rightarrow> 'z pool_state_scheme \<Rightarrow> 'z pool_state_scheme" where
  \<comment> \<open>\<^verbatim>\<open>taskQue_.emplace(...); taskSize_++\<close>\<close>
  "enqueue_task a s = s\<lparr>taskQue := taskQue s @ [a], taskSize := taskSize s + 1\<rparr>"

definition spawn_wanted :: "'z pool_state_scheme \<Rightarrow> bool" where
  \<comment> \<open>the condition of the cached-mode \<^verbatim>\<open>if\<close>, read after \<^verbatim>\<open>taskSize_++\<close>\<close>
  "spawn_wanted s \<longleftrightarrow>
     poolMode s = MODE_CACHED
     \<and> sint (idleThreadSize s) < sint (taskSize s)
     \<and> sint (curThreadSize s) < sint (threadSizeThreshHold s)"

definition cached_spawn :: "'z pool_state_scheme \<Rightarrow> label list \<times> 'z pool_state_scheme" where
  "cached_spawn s =
     (if spawn_wanted s then
        (let (tid, s1) = Thread_new s;
             s2 = Thread_start tid (threads_emplace tid s1)
         in ([ThreadStarted tid],
             s2\<lparr>curThreadSize := curThreadSize s2 + 1, idleThreadSize := idleThreadSize s2 + 1\<rparr>))
      else ([], s))"

section \<open>The worker loop \<^verbatim>\<open>threadFunc\<close>\<close>

definition set_worker :: "nat \<Rightarrow> worker \<Rightarrow> 'z pool_state_scheme \<Rightarrow> 'z pool_state_scheme" where
  "set_worker k w s = s\<lparr>workers := (workers s)(k \<mapsto> w)\<rparr>"

definition notify_exitCond :: "'z pool_state_scheme \<Rightarrow> 'z pool_state_scheme" where
  \<comment> \<open>\<^verbatim>\<open>exitCond_.notify_all()\<close> wakes the destructor if it is asleep in its wait\<close>
  "notify_exitCond s = (if dtor s = DtorWaiting then s\<lparr>dtor := DtorNotified\<rparr> else s)"

text \<open>The steps of thread number \<open>k\<close>.\<close>

definition threadFunc_begin ::
  "nat \<Rightarrow> time_point \<Rightarrow> 'z pool_state_scheme \<Rightarrow> 'z pool_state_scheme result" where
  \<comment> \<open>\<^verbatim>\<open>auto lastTime = now()\<close>, then the first pass of the \<^verbatim>\<open>for\<close> loop takes
      the mutex\<close>
  "threadFunc_begin k now s =
     (case workers s k of
        None \<Rightarrow> Blocked
      | Some w \<Rightarrow>
          if pc w = Spawned then Done [] (set_worker k (w\<lparr>pc := Fetching, lastTime := now\<rparr>) s)
          else Blocked)"

definition threadFunc_fetch ::
  "nat \<Rightarrow> 'z pool_state_scheme \<Rightarrow> 'z pool_state_scheme result" where
  \<comment> \<open>one test of \<^verbatim>\<open>while(taskQue_.size()==0)\<close> with the mutex held, up to the next
      wait, \<^verbatim>\<open>return\<close> or release of the mutex\<close>
  "threadFunc_fetch k s =
     (case workers s k of
        None \<Rightarrow> Blocked
      | Some w \<Rightarrow>
          if pc w \<noteq> Fetching then Blocked
          else if taskQue s = [] then
            (if \<not> isPoolRunning s then
               Done [NotifyAll exitCond, ThreadExit (threadid w) PoolShutdown]
                 (set_worker k (w\<lparr>pc := Retired\<rparr>)
                    (notify_exitCond (threads_erase (threadid w) s)))
             else if poolMode s = MODE_CACHED then
               Done [] (set_worker k (w\<lparr>pc := WaitCached\<rparr>) s)
             else
               Done [] (set_worker k (w\<lparr>pc := WaitFixed\<rparr>) s))
          else
            (let task = hd (taskQue s);
                 s1 = s\<lparr>idleThreadSize := idleThreadSize s - 1,
                        taskQue := tl (taskQue s),
                        taskSize := taskSize s - 1\<rparr>
             in Done ([Dequeued task]
                      @ (if taskQue s1 \<noteq> [] then [NotifyAll notEmpty] else [])
                      @ [NotifyAll notFull])
                  (set_worker k (w\<lparr>pc := Executing task\<rparr>) s1)))"

definition idle_retire_cond :: "time_point \<Rightarrow> worker \<Rightarrow> 'z pool_state_scheme \<Rightarrow> bool" where
  \<comment> \<open>\<^verbatim>\<open>dur.count() >= THREAD_MAX_IDLE_TIME && curThreadSize_ > initThreadSize_\<close>\<close>
  "idle_retire_cond now w s \<longleftrightarrow>
     THREAD_MAX_IDLE_TIME \<le> duration_cast_seconds (now - lastTime w)
     \<and> sint (initThreadSize s) < sint (curThreadSize s)"

definition threadFunc_wake ::
  "nat \<Rightarrow> cv_status \<Rightarrow> time_point \<Rightarrow> 'z pool_state_scheme \<Rightarrow> 'z pool_state_scheme result" where
  \<comment> \<open>the wait on \<^verbatim>\<open>notEmpty_\<close> returns (the mutex is held again): in cached mode the
      idle-time test follows a timeout; then the loop tests the queue again\<close>
  "threadFunc_wake k st now s =
     (case workers s k of
        None \<Rightarrow> Blocked
      | Some w \<Rightarrow>
          if pc w = WaitCached then
            (if st = timeout \<and> idle_retire_cond now w s then
               (let s1 = threads_erase (threadid w) s;
                    s2 = s1\<lparr>curThreadSize := curThreadSize s1 - 1,
                            idleThreadSize := idleThreadSize s1 - 1\<rparr>
                in Done [ThreadExit (threadid w) IdleTimeout] (set_worker k (w\<lparr>pc := Retired\<rparr>) s2))
             else Done [] (set_worker k (w\<lparr>pc := Fetching\<rparr>) s))
          else if pc w = WaitFixed then Done [] (set_worker k (w\<lparr>pc := Fetching\<rparr>) s)
          else Blocked)"

definition threadFunc_finish ::
  "nat \<Rightarrow> worker \<Rightarrow> time_point \<Rightarrow> 'z pool_state_scheme \<Rightarrow> 'z pool_state_scheme" where
  \<comment> \<open>after the task: \<^verbatim>\<open>idleThreadSize_++; lastTime = now()\<close>, and the loop starts
      over\<close>
  "threadFunc_finish k w now s =
     set_worker k (w\<lparr>pc := Fetching, lastTime := now\<rparr>)
       (s\<lparr>idleThreadSize := idleThreadSize s + 1\<rparr>)"

section \<open>The destructor\<close>

definition dtor_clear_flag :: "'z pool_state_scheme \<Rightarrow> 'z pool_state_scheme result" where
  \<comment> \<open>\<^verbatim>\<open>isPoolRunning_ = false\<close>, before the mutex is taken\<close>
  "dtor_clear_flag s =
     (if dtor s = DtorNotCalled then Done [] (s\<lparr>isPoolRunning := False, dtor := DtorEntered\<rparr>)
      else Blocked)"

definition dtor_threads_gone :: "'z pool_state_scheme \<Rightarrow> 'z pool_state_scheme" where
  \<comment> \<open>one test of the predicate \<^verbatim>\<open>threads_.size() == 0\<close> of the wait: return, or
      sleep\<close>
  "dtor_threads_gone s = s\<lparr>dtor := (if threads s = [] then DtorReturned else DtorWaiting)\<rparr>"

definition dtor_notify :: "'z pool_state_scheme \<Rightarrow> 'z pool_state_scheme result" where
  \<comment> \<open>the destructor takes the mutex: \<^verbatim>\<open>notEmpty_.notify_all()\<close>, then it enters
      \<^verbatim>\<open>exitCond_.wait(lock, pred)\<close>\<close>
  "dtor_notify s =
     (if dtor s = DtorEntered then Done [NotifyAll notEmpty] (dtor_threads_gone s) else Blocked)"

definition dtor_wake :: "bool \<Rightarrow> 'z pool_state_scheme \<Rightarrow> 'z pool_state_scheme result" where
  \<comment> \<open>the wait on \<^verbatim>\<open>exitCond_\<close> is woken, by a notification or (\<open>spurious\<close>) without
      one, and tests its predicate again\<close>
  "dtor_wake spurious s =
     (if dtor s = DtorNotified \<or> (spurious \<and> dtor s = DtorWaiting)
      then Done [] (dtor_threads_gone s)
      else Blocked)"

section \<open>The pool of \<^verbatim>\<open>ThreadCpp\<close>: tasks with a result slot\<close>

text \<open>
  Modelled from the spec: the classes \<^verbatim>\<open>Any\<close> and \<^verbatim>\<open>Semaphore\<close> and the
  declarations of \<^verbatim>\<open>Task\<close> and \<^verbatim>\<open>Result\<close> are in
  \<^verbatim>\<open>ThreadCpp/threadpool.h\<close>, which is not among the sources. \<open>Any\<close> is the
  type-erased value of the spec (empty, the string a rejected handle returns, or the
  \<^verbatim>\<open>unsigned long long\<close> of the demonstration task); the semaphore is the counting
  semaphore of the spec's result slot, starting at 0; a \<^verbatim>\<open>Result\<close> built without its
  second argument is valid.
\<close>

text \<open>Modelled from the spec: the class \<^verbatim>\<open>Any\<close>, a box for one value of any type.\<close>

datatype Any = AnyEmpty | AnyCStr string | AnyULong ulong

record Task =
  run :: "unit \<Rightarrow> Any completion option"   \<comment> \<open>the virtual \<^verbatim>\<open>run()\<close>; \<open>None\<close>: it never returns\<close>
  result :: "addr option"                      \<comment> \<open>\<^verbatim>\<open>result_\<close>, null at first\<close>

record Result =
  isValid :: bool
  task :: addr
  any :: Any
  sem :: nat

record cpp_heap =
  taskObjs :: "addr \<rightharpoonup> Task"
  results :: "addr \<rightharpoonup> Result"

type_synonym cpp_state = "cpp_heap pool_state_scheme"

definition heap :: "cpp_state \<Rightarrow> cpp_heap" where
  "heap s = pool_state.more s"

definition Semaphore_post :: "nat \<Rightarrow> nat" where
  \<comment> \<open>Modelled from the spec: \<^verbatim>\<open>Semaphore::post\<close> of a counting semaphore\<close>
  "Semaphore_post n = n + 1"

definition Semaphore_wait :: "nat \<Rightarrow> nat option" where
  \<comment> \<open>Modelled from the spec: \<^verbatim>\<open>Semaphore::wait\<close> of a counting semaphore;
      \<open>None\<close>: the caller stays blocked\<close>
  "Semaphore_wait n = (if n = 0 then None else Some (n - 1))"

definition Result_ctor :: "addr \<Rightarrow> addr \<Rightarrow> bool \<Rightarrow> cpp_heap \<Rightarrow> cpp_heap option" where
  \<comment> \<open>\<^verbatim>\<open>Result::Result(task, isValid)\<close> building the object at \<open>r\<close>;
      \<^verbatim>\<open>task_->setResult(this)\<close> needs the task to exist\<close>
  "Result_ctor r sp valid h =
     (case taskObjs h sp of
        None \<Rightarrow> None
      | Some t \<Rightarrow>
          Some (h\<lparr>taskObjs := (taskObjs h)(sp \<mapsto> t\<lparr>result := Some r\<rparr>),
                  results := (results h)(r \<mapsto> \<lparr>isValid = valid, task = sp, any = AnyEmpty, sem = 0\<rparr>)\<rparr>))"

definition Result_setVal :: "addr \<Rightarrow> Any \<Rightarrow> cpp_heap \<Rightarrow> cpp_heap option" where
  "Result_setVal r v h =
     (case results h r of
        None \<Rightarrow> None
      | Some R \<Rightarrow> Some (h\<lparr>results := (results h)(r \<mapsto> R\<lparr>any := v, sem := Semaphore_post (sem R)\<rparr>)\<rparr>))"

definition Result_get :: "addr \<Rightarrow> cpp_heap \<Rightarrow> (Any \<times> cpp_heap) result" where
  \<comment> \<open>\<^verbatim>\<open>Result::get\<close>; the value is moved out of the slot\<close>
  "Result_get r h =
     (case results h r of
        None \<Rightarrow> Abort NullPointer
      | Some R \<Rightarrow>
          if \<not> isValid R then Done [] (AnyCStr '''', h)
          else (case Semaphore_wait (sem R) of
                  None \<Rightarrow> Blocked
                | Some n \<Rightarrow>
                    Done [] (any R, h\<lparr>results := (results h)(r \<mapsto> R\<lparr>any := AnyEmpty, sem := n\<rparr>)\<rparr>)))"

definition Task_exec :: "addr \<Rightarrow> cpp_heap \<Rightarrow> cpp_heap result" where
  \<comment> \<open>\<^verbatim>\<open>if(result_!=nullptr) result_->setVal(run())\<close>; nothing catches what
      \<^verbatim>\<open>run\<close> throws\<close>
  "Task_exec sp h =
     (case taskObjs h sp of
        None \<Rightarrow> Abort NullPointer
      | Some t \<Rightarrow>
          (case result t of
             None \<Rightarrow> Done [] h
           | Some r \<Rightarrow>
               (case run t () of
                  None \<Rightarrow> Blocked
                | Some (Thrown e) \<Rightarrow> Abort (Terminate e)
                | Some (Returned v) \<Rightarrow>
                    (case Result_setVal r v h of
                       None \<Rightarrow> Abort NullPointer
                     | Some h' \<Rightarrow> Done [] h'))))"

definition submitTask :: "addr \<Rightarrow> addr \<Rightarrow> bool \<Rightarrow> cpp_state \<Rightarrow> cpp_state result" where
  \<comment> \<open>\<^verbatim>\<open>ThreadPool::submitTask(sp)\<close> of \<^verbatim>\<open>ThreadCpp/threadpool.cpp\<close>, its
      \<^verbatim>\<open>Result\<close> built at \<open>r\<close>. \<open>timed_out\<close>: the second of
      \<^verbatim>\<open>wait_for\<close> has passed. \<^verbatim>\<open>wait_for\<close> returns true once its predicate
      holds, false when the time is up and the predicate still fails, and waits otherwise.\<close>
  "submitTask sp r timed_out s =
     (if \<not> notFull_pred s then
        (if timed_out then
           (case Result_ctor r sp False (heap s) of
              None \<Rightarrow> Abort NullPointer
            | Some h \<Rightarrow> Done [] (s\<lparr>pool_state.more := h\<rparr>))
         else Blocked)
      else
        (let s1 = enqueue_task sp s;
             (ls, s2) = cached_spawn s1
         in case Result_ctor r sp True (heap s2) of
              None \<Rightarrow> Abort NullPointer
            | Some h \<Rightarrow> Done ([Enqueued sp, NotifyAll notEmpty] @ ls) (s2\<lparr>pool_state.more := h\<rparr>)))"

definition threadFunc_exec :: "nat \<Rightarrow> time_point \<Rightarrow> cpp_state \<Rightarrow> cpp_state result" where
  \<comment> \<open>\<^verbatim>\<open>if(task!=nullptr) task->exec();\<close> and the end of the loop body\<close>
  "threadFunc_exec k now s =
     (case workers s k of
        None \<Rightarrow> Blocked
      | Some w \<Rightarrow>
          (case pc w of
             Executing sp \<Rightarrow>
               (case Task_exec sp (heap s) of
                  Blocked \<Rightarrow> Blocked
                | Abort e \<Rightarrow> Abort e
                | Done ls h \<Rightarrow> Done ls (threadFunc_finish k w now (s\<lparr>pool_state.more := h\<rparr>)))
           | _ \<Rightarrow> Blocked))"

subsection \<open>The demonstration task \<^verbatim>\<open>MyTask\<close>\<close>

partial_function (option) MyTask_loop :: "ulong \<Rightarrow> ulong \<Rightarrow> ulong \<Rightarrow> ulong option" where
  \<comment> \<open>\<^verbatim>\<open>for(uLong i=begin_;i<=end_;i++)sum+=i;\<close> from \<open>i\<close>, with the sum so far\<close>
  "MyTask_loop i e sum_v = (if i \<le> e then MyTask_loop (i + 1) e (sum_v + i) else Some sum_v)"

definition MyTask_run :: "cint \<Rightarrow> cint \<Rightarrow> Any completion option" where
  \<comment> \<open>the two ints are converted to \<^verbatim>\<open>unsigned long long\<close>\<close>
  "MyTask_run begin_v end_v =
     map_option (\<lambda>v. Returned (AnyULong v)) (MyTask_loop (scast begin_v) (scast end_v) 0)"

definition MyTask :: "cint \<Rightarrow> cint \<Rightarrow> Task" where
  "MyTask begin_v end_v = \<lparr>run = (\<lambda>_. MyTask_run begin_v end_v), result = None\<rparr>"

section \<open>The pool of \<^verbatim>\<open>ThreadCppFinal\<close>: packaged tasks and futures\<close>

text \<open>
  A \<^verbatim>\<open>std::packaged_task\<close> owns its callable and the shared state its future reads:
  running it stores what the callable returns, or the exception it throws, in the shared
  state. The queue holds closures over a shared pointer to a packaged task; the model keeps the
  address. \<^verbatim>\<open>make_shared\<close> hands out the addresses \<open>next_addr\<close>, \<open>next_addr + 1\<close>, ...
\<close>

record 'r packaged_task =
  fn :: "unit \<Rightarrow> 'r completion option"
  shared :: "'r completion option"     \<comment> \<open>\<open>None\<close>: not ready\<close>

record 'r final_heap =
  ptasks :: "addr \<rightharpoonup> 'r packaged_task"
  next_addr :: addr

type_synonym 'r final_state = "'r final_heap pool_state_scheme"

definition fheap :: "'r final_state \<Rightarrow> 'r final_heap" where
  "fheap s = pool_state.more s"

definition make_packaged_task ::
  "(unit \<Rightarrow> 'r completion option) \<Rightarrow> 'r final_heap \<Rightarrow> addr \<times> 'r final_heap" where
  "make_packaged_task f h =
     (next_addr h,
      h\<lparr>ptasks := (ptasks h)(next_addr h \<mapsto> \<lparr>fn = f, shared = None\<rparr>),
        next_addr := next_addr h + 1\<rparr>)"

definition packaged_task_call :: "addr \<Rightarrow> 'r final_heap \<Rightarrow> 'r final_heap result" where
  \<comment> \<open>\<^verbatim>\<open>(*task)()\<close>; a second call throws \<^verbatim>\<open>std::future_error\<close>\<close>
  "packaged_task_call a h =
     (case ptasks h a of
        None \<Rightarrow> Abort NullPointer
      | Some p \<Rightarrow>
          (case shared p of
             Some _ \<Rightarrow> Abort (Terminate (Exn ''promise_already_satisfied''))
           | None \<Rightarrow>
               (case fn p () of
                  None \<Rightarrow> Blocked
                | Some c \<Rightarrow> Done [] (h\<lparr>ptasks := (ptasks h)(a \<mapsto> p\<lparr>shared := Some c\<rparr>)\<rparr>))))"

definition future_get :: "addr \<Rightarrow> 'r final_heap \<Rightarrow> 'r completion result" where
  \<comment> \<open>\<^verbatim>\<open>std::future::get\<close>: waits for the shared state, then returns the value
      (\<open>Returned\<close>) or rethrows the stored exception in the caller (\<open>Thrown\<close>)\<close>
  "future_get a h =
     (case ptasks h a of
        None \<Rightarrow> Abort NullPointer
      | Some p \<Rightarrow> (case shared p of None \<Rightarrow> Blocked | Some c \<Rightarrow> Done [] c))"

definition future_valid :: "addr \<Rightarrow> 'r final_heap \<Rightarrow> bool" where
  \<comment> \<open>\<^verbatim>\<open>std::future::valid\<close> of a future not yet read: it refers to a shared state\<close>
  "future_valid a h \<longleftrightarrow> ptasks h a \<noteq> None"

definition submitTask_final ::
  "(unit \<Rightarrow> 'r completion option) \<Rightarrow> 'r \<Rightarrow> bool \<Rightarrow> 'r final_state
     \<Rightarrow> (addr \<times> 'r final_state) result" where
  \<comment> \<open>\<^verbatim>\<open>ThreadPool::submitTask(func, args...)\<close> of \<^verbatim>\<open>ThreadCppFinal/threadpool.h\<close>:
      \<open>f\<close> is \<^verbatim>\<open>std::bind(func, args...)\<close>, \<open>dflt\<close> the value \<^verbatim>\<open>RType()\<close>; the
      address returned stands for the future\<close>
  "submitTask_final f dflt timed_out s =
     (let (a, h0) = make_packaged_task f (fheap s);
          s0 = s\<lparr>pool_state.more := h0\<rparr>
      in if \<not> notFull_pred s0 then
           (if timed_out then
              (let (a', h1) = make_packaged_task (\<lambda>_. Some (Returned dflt)) h0
               in case packaged_task_call a' h1 of
                    Done ls h2 \<Rightarrow>
                      Done [] (a', s\<lparr>pool_state.more := h2\<lparr>ptasks := (ptasks h2)(a := None)\<rparr>\<rparr>)
                  | Abort e \<Rightarrow> Abort e
                  | Blocked \<Rightarrow> Blocked)
            else Blocked)
         else
           (let s1 = enqueue_task a s0;
                (ls, s2) = cached_spawn s1
            in Done ([Enqueued a, NotifyAll notEmpty] @ ls) (a, s2)))"

definition threadFunc_exec_final ::
  "nat \<Rightarrow> time_point \<Rightarrow> 'r final_state \<Rightarrow> 'r final_state result" where
  \<comment> \<open>\<^verbatim>\<open>if (task != nullptr) task();\<close> and the end of the loop body\<close>
  "threadFunc_exec_final k now s =
     (case workers s k of
        None \<Rightarrow> Blocked
      | Some w \<Rightarrow>
          (case pc w of
             Executing a \<Rightarrow>
               (case packaged_task_call a (fheap s) of
                  Blocked \<Rightarrow> Blocked
                | Abort e \<Rightarrow> Abort e
                | Done ls h \<Rightarrow> Done ls (threadFunc_finish k w now (s\<lparr>pool_state.more := h\<rparr>)))
           | _ \<Rightarrow> Blocked))"

section \<open>Runs of the pool\<close>

text \<open>
  The calls a pool can receive and the steps its threads can take. A run is a list of them, in
  the order in which they take the mutex. The payload \<open>'p\<close> of a submission and the two
  functions that differ between the pools are parameters.
\<close>

datatype 'p event =
    SetMode PoolMode
  | SetInitThreadSize cint
  | SetTaskQueMaxThreshHold cint
  | SetThreadSizeThreshHold cint
  | Start cint
  | SubmitTask 'p bool
  | WorkerBegin nat time_point
  | WorkerFetch nat
  | WorkerWake nat cv_status time_point
  | WorkerExec nat time_point
  | DtorClearFlag
  | DtorNotify
  | DtorWake bool

definition step ::
  "('p \<Rightarrow> bool \<Rightarrow> 'z pool_state_scheme \<Rightarrow> 'z pool_state_scheme result)
   \<Rightarrow> (nat \<Rightarrow> time_point \<Rightarrow> 'z pool_state_scheme \<Rightarrow> 'z pool_state_scheme result)
   \<Rightarrow> 'p event \<Rightarrow> 'z pool_state_scheme \<Rightarrow> 'z pool_state_scheme result" where
  "step submit exec ev s =
     (case ev of
        SetMode m \<Rightarrow> Done [] (setMode m s)
      | SetInitThreadSize n \<Rightarrow> Done [] (setInitThreadSize n s)
      | SetTaskQueMaxThreshHold c \<Rightarrow> Done [] (setTaskQueMaxThreshHold c s)
      | SetThreadSizeThreshHold c \<Rightarrow> Done [] (setThreadSizeThreshHold c s)
      | Start n \<Rightarrow> start n s
      | SubmitTask p timed_out \<Rightarrow> submit p timed_out s
      | WorkerBegin k now \<Rightarrow> threadFunc_begin k now s
      | WorkerFetch k \<Rightarrow> threadFunc_fetch k s
      | WorkerWake k st now \<Rightarrow> threadFunc_wake k st now s
      | WorkerExec k now \<Rightarrow> exec k now s
      | DtorClearFlag \<Rightarrow> dtor_clear_flag s
      | DtorNotify \<Rightarrow> dtor_notify s
      | DtorWake spurious \<Rightarrow> dtor_wake spurious s)"

definition step_cpp :: "(addr \<times> addr) event \<Rightarrow> cpp_state \<Rightarrow> cpp_state result" where
  \<comment> \<open>a submission names the task and the place of its \<^verbatim>\<open>Result\<close>\<close>
  "step_cpp = step (\<lambda>(sp, r). submitTask sp r) threadFunc_exec"

definition submit_final ::
  "(unit \<Rightarrow> 'r completion option) \<times> 'r \<Rightarrow> bool \<Rightarrow> 'r final_state \<Rightarrow> 'r final_state result" where
  \<comment> \<open>\<open>submitTask_final\<close> without the future it returns\<close>
  "submit_final p timed_out s =
     (case submitTask_final (fst p) (snd p) timed_out s of
        Done ls (a, s') \<Rightarrow> Done ls s'
      | Abort e \<Rightarrow> Abort e
      | Blocked \<Rightarrow> Blocked)"

definition step_final ::
  "((unit \<Rightarrow> 'r completion option) \<times> 'r) event \<Rightarrow> 'r final_state \<Rightarrow> 'r final_state result" where
  "step_final = step submit_final threadFunc_exec_final"

fun exec_events :: "('e \<Rightarrow> 's \<Rightarrow> 's result) \<Rightarrow> 'e list \<Rightarrow> 's \<Rightarrow> label list \<times> 's" where
  \<comment> \<open>the labels and the state of a run; an event whose thread is suspended changes nothing,
      and the run ends where the process dies\<close>
  "exec_events stp [] s = ([], s)"
| "exec_events stp (ev # evs) s =
     (case stp ev s of
        Done ls s' \<Rightarrow> (let (ls', s'') = exec_events stp evs s' in (ls @ ls', s''))
      | Blocked \<Rightarrow> exec_events stp evs s
      | Abort e \<Rightarrow> ([], s))"

fun enqueued :: "label list \<Rightarrow> addr list" where
  "enqueued [] = []"
| "enqueued (Enqueued a # ls) = a # enqueued ls"
| "enqueued (l # ls) = enqueued ls"

fun dequeued :: "label list \<Rightarrow> addr list" where
  "dequeued [] = []"
| "dequeued (Dequeued a # ls) = a # dequeued ls"
| "dequeued (l # ls) = dequeued ls"

definition capacity_kept :: "'p event \<Rightarrow> 'z pool_state_scheme \<Rightarrow> bool" where
  \<comment> \<open>the event is not a capacity setter that takes effect below the current queue length\<close>
  "capacity_kept ev s =
     (case ev of
        SetTaskQueMaxThreshHold c \<Rightarrow> isPoolRunning s \<or> int (length (taskQue s)) \<le> sint c
      | _ \<Rightarrow> True)"

fun capacity_respected ::
  "('p event \<Rightarrow> 'z pool_state_scheme \<Rightarrow> 'z pool_state_scheme result)
   \<Rightarrow> 'p event list \<Rightarrow> 'z pool_state_scheme \<Rightarrow> bool" where
  "capacity_respected stp [] s = True"
| "capacity_respected stp (ev # evs) s =
     (capacity_kept ev s \<and>
      (case stp ev s of
         Done ls s' \<Rightarrow> capacity_respected stp evs s'
       | Blocked \<Rightarrow> capacity_respected stp evs s
       | Abort e \<Rightarrow> True))"

definition floor_kept :: "'p event \<Rightarrow> 'z pool_state_scheme \<Rightarrow> bool" where
  \<comment> \<open>the event is not a call of \<^verbatim>\<open>setInitThreadSize\<close> with a value above the
      current worker count\<close>
  "floor_kept ev s =
     (case ev of
        SetInitThreadSize n \<Rightarrow> sint n \<le> sint (curThreadSize s)
      | _ \<Rightarrow> True)"



definition handed_over ::
  "'p event \<Rightarrow> 'z pool_state_scheme \<Rightarrow> 'z pool_state_scheme \<Rightarrow> addr list" where
  \<comment> \<open>the task a worker holds when it leaves the locked block of \<^verbatim>\<open>threadFunc\<close> to
      run it\<close>
  "handed_over ev s s' =
     (case ev of
        WorkerFetch k \<Rightarrow>
          (case workers s' k of
             Some w \<Rightarrow> (case pc w of Executing a \<Rightarrow> [a] | _ \<Rightarrow> [])
           | None \<Rightarrow> [])
      | _ \<Rightarrow> [])"

definition submitted_cpp :: "(addr \<times> addr) event \<Rightarrow> cpp_state \<Rightarrow> cpp_state \<Rightarrow> addr list" where
  \<comment> \<open>the task of a submission that is admitted\<close>
  "submitted_cpp ev s s' =
     (case ev of
        SubmitTask p timed_out \<Rightarrow> if notFull_pred s then [fst p] else []
      | _ \<Rightarrow> [])"

definition submitted_final ::
  "((unit \<Rightarrow> 'r completion option) \<times> 'r) event \<Rightarrow> 'r final_state \<Rightarrow> 'r final_state
     \<Rightarrow> addr list" where
  \<comment> \<open>the handle \<^verbatim>\<open>submitTask\<close> returns for a submission that is admitted\<close>
  "submitted_final ev s s' =
     (case ev of
        SubmitTask p timed_out \<Rightarrow>
          (case submitTask_final (fst p) (snd p) timed_out s of
             Done ls (a, s1) \<Rightarrow> if notFull_pred s then [a] else []
           | _ \<Rightarrow> [])
      | _ \<Rightarrow> [])"

definition returned :: "('a \<times> 'h) result \<Rightarrow> 'a option" where
  \<comment> \<open>the value a call returns, if it returns\<close>
  "returned r = (case r of Done ls (v, h) \<Rightarrow> Some v | _ \<Rightarrow> None)"

section \<open>The programs of the repository and other concrete runs\<close>

definition main_pool :: cpp_state where
  \<comment> \<open>\<^verbatim>\<open>ThreadCpp/main.cpp\<close>: the pool, and the task
      \<^verbatim>\<open>make_shared<MyTask>(1,10000000)\<close> at address 0\<close>
  "main_pool = ThreadPool 0 \<lparr>taskObjs = [0 \<mapsto> MyTask 1 10000000], results = Map.empty\<rparr>"

definition main_run :: "nat \<Rightarrow> time_point \<Rightarrow> time_point \<Rightarrow> (addr \<times> addr) event list" where
  \<comment> \<open>\<^verbatim>\<open>pool.start(4); Result res1 = pool.submitTask(...)\<close>, then the \<open>k\<close>-th worker
      takes the task and runs it\<close>
  "main_run k t0 t1 =
     [Start 4, SubmitTask (0, 0) False, WorkerBegin k t0, WorkerFetch k, WorkerExec k t1]"

definition main_get :: "nat \<Rightarrow> time_point \<Rightarrow> time_point \<Rightarrow> Any option" where
  \<comment> \<open>what \<^verbatim>\<open>res1.get()\<close> returns after that run\<close>
  "main_get k t0 t1 =
     returned (Result_get 0 (heap (snd (exec_events step_cpp (main_run k t0 t1) main_pool))))"

definition failing_task :: Task where
  "failing_task = \<lparr>run = (\<lambda>_. Some (Thrown (Exn ''task failed''))), result = None\<rparr>"

definition failing_pool :: cpp_state where
  "failing_pool = ThreadPool 0 \<lparr>taskObjs = [0 \<mapsto> failing_task], results = Map.empty\<rparr>"

definition failing_run :: "(addr \<times> addr) event list" where
  "failing_run = [Start 1, SubmitTask (0, 0) False, WorkerBegin 0 0, WorkerFetch 0]"

definition sum1 :: "cint \<Rightarrow> cint \<Rightarrow> cint" where
  \<comment> \<open>the function \<^verbatim>\<open>ThreadCppFinal/main.cpp\<close> submits\<close>
  "sum1 a b = a + b"

definition sum1_call :: "(unit \<Rightarrow> cint completion option) \<times> cint" where
  \<comment> \<open>\<^verbatim>\<open>submitTask(sum1,1,2)\<close>: the bound call and \<^verbatim>\<open>int()\<close>\<close>
  "sum1_call = ((\<lambda>_. Some (Returned (sum1 1 2))), 0)"

definition final_pool :: "cint final_state" where
  "final_pool = ThreadPool 0 \<lparr>ptasks = Map.empty, next_addr = 0\<rparr>"

definition overshoot_run :: "((unit \<Rightarrow> cint completion option) \<times> cint) event list" where
  \<comment> \<open>a cached pool with ceiling 2 is started with 3 workers, then receives a task\<close>
  "overshoot_run =
     [SetMode MODE_CACHED, SetThreadSizeThreshHold 2, Start 3, SubmitTask sum1_call False]"


definition idle_run :: "((unit \<Rightarrow> cint completion option) \<times> cint) event list" where
  \<comment> \<open>a cached pool started with 0 workers gets one task; the worker spawned for it runs the
      task at time 0 and, the queue being empty, waits; its wait times out after 59 seconds,
      it tests the queue and the flag again and waits once more\<close>
  "idle_run =
     [SetMode MODE_CACHED, Start 0, SubmitTask sum1_call False, WorkerBegin 0 0, WorkerFetch 0,
      WorkerExec 0 0, WorkerFetch 0, WorkerWake 0 timeout 59000000000, WorkerFetch 0]"

definition idle_state :: "cint final_state" where
  "idle_state = snd (exec_events step_final idle_run final_pool)"

definition race_state :: "cint final_state" where
  \<comment> \<open>while that worker waits, the destructor clears the running flag\<close>
  "race_state = snd (exec_events step_final (idle_run @ [DtorClearFlag]) final_pool)"


definition full_state_cpp :: cpp_state where
  \<comment> \<open>capacity 1 and one task in the queue\<close>
  "full_state_cpp =
     snd (exec_events step_cpp [SetTaskQueMaxThreshHold 1, SubmitTask (0, 0) False] main_pool)"

definition full_state :: "cint final_state" where
  "full_state =
     snd (exec_events step_final [SetTaskQueMaxThreshHold 1, SubmitTask sum1_call False] final_pool)"

definition cached_state_cpp :: cpp_state where
  \<comment> \<open>a cached pool started with 0 workers\<close>
  "cached_state_cpp = snd (exec_events step_cpp [SetMode MODE_CACHED, Start 0] main_pool)"

definition cached_state :: "cint final_state" where
  "cached_state = snd (exec_events step_final [SetMode MODE_CACHED, Start 0] final_pool)"


definition failing_call :: "(unit \<Rightarrow> cint completion option) \<times> cint" where
  "failing_call = ((\<lambda>_. Some (Thrown (Exn ''task failed''))), 0)"

definition failing_state :: "cint final_state" where
  \<comment> \<open>a worker of the pool of \<^verbatim>\<open>ThreadCppFinal\<close> has taken a task that throws\<close>
  "failing_state =
     snd (exec_events step_final
       [Start 1, SubmitTask failing_call False, WorkerBegin 0 0, WorkerFetch 0] final_pool)"

definition failing_state_cpp :: cpp_state where
  \<comment> \<open>a worker of the pool of \<^verbatim>\<open>ThreadCpp\<close> has taken a task that throws\<close>
  "failing_state_cpp = snd (exec_events step_cpp failing_run failing_pool)"

definition rejected_state :: "cint final_state" where
  \<comment> \<open>\<open>full_state\<close> after one more submission has waited its second in vain; its handle
      is address 2\<close>
  "rejected_state = snd (exec_events step_final [SubmitTask sum1_call True] full_state)"

definition zero_call :: "(unit \<Rightarrow> cint completion option) \<times> cint" where
  \<comment> \<open>a task that returns 0\<close>
  "zero_call = ((\<lambda>_. Some (Returned 0)), 0)"

definition served_state :: "cint final_state" where
  \<comment> \<open>a pool of one worker has admitted and run \<open>zero_call\<close>; its handle is address 0\<close>
  "served_state =
     snd (exec_events step_final
       [Start 1, SubmitTask zero_call False, WorkerBegin 0 0, WorkerFetch 0, WorkerExec 0 0]
       final_pool)"


definition stuck_run :: "((unit \<Rightarrow> cint completion option) \<times> cint) event list" where
  \<comment> \<open>\<open>idle_run\<close>, then the destructor: it clears the flag, takes the mutex, notifies
      \<^verbatim>\<open>notEmpty_\<close> and sleeps on \<^verbatim>\<open>exitCond_\<close>; the worker, whose wait had
      timed out at second 60, gets the mutex\<close>
  "stuck_run =
     idle_run @ [DtorClearFlag, DtorNotify, WorkerWake 0 timeout 60000000000]"

definition stuck_state :: "cint final_state" where
  "stuck_state = snd (exec_events step_final stuck_run final_pool)"



section \<open>What a step may do to the queue and the counters\<close>

definition submit_effect ::
  "'z pool_state_scheme \<Rightarrow> label list \<Rightarrow> 'z pool_state_scheme \<Rightarrow> bool" where
  \<comment> \<open>a submission leaves queue and counters alone, or appends one task\<close>
  "submit_effect s ls s' \<longleftrightarrow>
     taskQueMaxThreshHold s' = taskQueMaxThreshHold s \<and> initThreadSize s' = initThreadSize s
     \<and> (taskQue s' = taskQue s \<and> taskSize s' = taskSize s \<and> curThreadSize s' = curThreadSize s
          \<and> enqueued ls = [] \<and> dequeued ls = []
        \<or> notFull_pred s
          \<and> (\<exists>a. taskQue s' = taskQue s @ [a] \<and> enqueued ls = [a]) \<and> dequeued ls = []
          \<and> taskSize s' = taskSize s + 1
          \<and> (curThreadSize s' = curThreadSize s
              \<or> curThreadSize s' = curThreadSize s + 1
                \<and> sint (curThreadSize s) < sint (threadSizeThreshHold s)))"

definition exec_frame :: "'z pool_state_scheme \<Rightarrow> label list \<Rightarrow> 'z pool_state_scheme \<Rightarrow> bool" where
  \<comment> \<open>running a task leaves queue and counters alone\<close>
  "exec_frame s ls s' \<longleftrightarrow>
     taskQue s' = taskQue s \<and> taskSize s' = taskSize s
     \<and> taskQueMaxThreshHold s' = taskQueMaxThreshHold s
     \<and> curThreadSize s' = curThreadSize s \<and> initThreadSize s' = initThreadSize s
     \<and> ls = []"

section \<open>Arithmetic of the counters\<close>

lemma sint_cint_range: "- 2147483648 \<le> sint (x :: cint) \<and> sint x \<le> 2147483647"
  using sint_ge [of x] sint_lt [of x] by simp

lemma sint_succ: "sint x < sint (y :: cint) \<Longrightarrow> sint (x + 1 :: cint) = sint x + 1"
proof -
  assume "sint x < sint y"
  then have "sint x + 1 \<le> 2147483647" using sint_cint_range [of y] by linarith
  moreover have "- 2147483648 \<le> sint x + 1" using sint_cint_range [of x] by linarith
  ultimately have "signed_take_bit 31 (sint x + 1) = sint x + 1"
    by (intro signed_take_bit_int_eq_self) simp_all
  then show ?thesis by (simp add: sint_word_ariths)
qed

lemma sint_pred: "sint (y :: cint) < sint x \<Longrightarrow> sint (x - 1 :: cint) = sint x - 1"
proof -
  assume "sint y < sint x"
  then have "- 2147483648 \<le> sint x - 1" using sint_cint_range [of y] by linarith
  moreover have "sint x - 1 < 2147483648" using sint_cint_range [of x] by linarith
  ultimately have "signed_take_bit 31 (sint x - 1) = sint x - 1"
    by (intro signed_take_bit_int_eq_self) simp_all
  then show ?thesis by (simp add: sint_word_ariths)
qed

lemma size_t_of_int_nonneg: "0 \<le> sint c \<Longrightarrow> size_t_of_int c = nat (sint c)"
proof -
  assume nn: "0 \<le> sint c"
  have lt: "sint c < (2 :: int) ^ 64"
  proof -
    have "sint c \<le> 2147483647" using sint_cint_range [of c] by simp
    also have "(2147483647 :: int) < 2 ^ 64" by simp
    finally show ?thesis .
  qed
  have "uint (scast c :: ulong) = take_bit 64 (sint c)"
    by (simp only: scast_eq uint_word_of_int_eq len_bit0 len_num1 mult_numeral_1_right numeral_times_numeral) simp
  also have "\<dots> = sint c"
    using nn lt by (rule take_bit_int_eq_self)
  finally show ?thesis
    by (simp only: size_t_of_int_def unat_eq_nat_uint)
qed

section \<open>Effects of the single steps\<close>

lemma notFull_pred_more [simp]: "notFull_pred (s\<lparr>pool_state.more := h\<rparr>) = notFull_pred s"
  by (simp add: notFull_pred_def)

lemma cached_spawn_enqueue:
  fixes s :: "'z pool_state_scheme"
  defines "w \<equiv> poolMode s = MODE_CACHED
                \<and> sint (idleThreadSize s) < sint (taskSize s + 1)
                \<and> sint (curThreadSize s) < sint (threadSizeThreshHold s)"
  assumes "cached_spawn (enqueue_task a s) = (ls, s')"
  shows "ls = (if w then [ThreadStarted (generateId s)] else [])"
    and "curThreadSize s' = (if w then curThreadSize s + 1 else curThreadSize s)"
    and "idleThreadSize s' = (if w then idleThreadSize s + 1 else idleThreadSize s)"
    and "workers s' = (if w then (workers s)(spawned s \<mapsto>
                         \<lparr>threadid = generateId s, pc = Spawned, lastTime = 0\<rparr>)
                       else workers s)"
    and "threads s' = (if w then threads (threads_emplace (generateId s) s) else threads s)"
    and "generateId s' = (if w then generateId s + 1 else generateId s)"
    and "taskQue s' = taskQue s @ [a]" and "taskSize s' = taskSize s + 1"
    and "threadSizeThreshHold s' = threadSizeThreshHold s"
    and "initThreadSize s' = initThreadSize s"
    and "taskQueMaxThreshHold s' = taskQueMaxThreshHold s"
    and "poolMode s' = poolMode s" and "isPoolRunning s' = isPoolRunning s"
    and "pool_state.more s' = pool_state.more s"
  using assms(2) unfolding w_def
  by (auto simp: cached_spawn_def enqueue_task_def spawn_wanted_def Thread_new_def
      threads_emplace_def Thread_start_def Let_def split: if_splits)

lemma enqueued_append [simp]: "enqueued (xs @ ys) = enqueued xs @ enqueued ys"
  by (induction xs rule: enqueued.induct) simp_all

lemma dequeued_append [simp]: "dequeued (xs @ ys) = dequeued xs @ dequeued ys"
  by (induction xs rule: dequeued.induct) simp_all

lemma start_create_frame:
  "taskQue (start_create is s) = taskQue s \<and> taskSize (start_create is s) = taskSize s
   \<and> taskQueMaxThreshHold (start_create is s) = taskQueMaxThreshHold s
   \<and> curThreadSize (start_create is s) = curThreadSize s
   \<and> initThreadSize (start_create is s) = initThreadSize s"
  by (induction "is" arbitrary: s)
     (simp_all add: Thread_new_def threads_emplace_def)

lemma start_run_frame:
  "start_run is ls0 s = Done ls s' \<Longrightarrow>
   taskQue s' = taskQue s \<and> taskSize s' = taskSize s
   \<and> taskQueMaxThreshHold s' = taskQueMaxThreshHold s
   \<and> curThreadSize s' = curThreadSize s
   \<and> initThreadSize s' = initThreadSize s
   \<and> enqueued ls = enqueued ls0 \<and> dequeued ls = dequeued ls0"
proof (induction "is" arbitrary: ls0 s)
  case Nil
  then show ?case by simp
next
  case (Cons i "is")
  from Cons.prems have mem: "of_nat i \<in> set (threads s)"
    by (simp split: if_splits)
  with Cons.prems have
    "start_run is (ls0 @ [ThreadStarted (of_nat i)])
       ((Thread_start (of_nat i) s)\<lparr>idleThreadSize := idleThreadSize s + 1\<rparr>) = Done ls s'"
    by simp
  from Cons.IH [OF this] show ?case by (simp add: Thread_start_def)
qed

lemma start_frame:
  "start n s = Done ls s' \<Longrightarrow>
   taskQue s' = taskQue s \<and> taskSize s' = taskSize s
   \<and> taskQueMaxThreshHold s' = taskQueMaxThreshHold s
   \<and> curThreadSize s' = n \<and> initThreadSize s' = n
   \<and> enqueued ls = [] \<and> dequeued ls = []"
  unfolding start_def Let_def
  by (drule start_run_frame) (simp add: start_create_frame)

lemma begin_frame:
  "threadFunc_begin tid now s = Done ls s' \<Longrightarrow>
   taskQue s' = taskQue s \<and> taskSize s' = taskSize s
   \<and> taskQueMaxThreshHold s' = taskQueMaxThreshHold s
   \<and> curThreadSize s' = curThreadSize s \<and> initThreadSize s' = initThreadSize s
   \<and> ls = []"
  by (auto simp: threadFunc_begin_def set_worker_def split: option.splits if_splits)

lemma fetch_effect:
  "threadFunc_fetch tid s = Done ls s' \<Longrightarrow>
   taskQueMaxThreshHold s' = taskQueMaxThreshHold s
   \<and> curThreadSize s' = curThreadSize s \<and> initThreadSize s' = initThreadSize s
   \<and> (if taskQue s = []
       then taskQue s' = [] \<and> taskSize s' = taskSize s \<and> enqueued ls = [] \<and> dequeued ls = []
       else taskQue s' = tl (taskQue s) \<and> taskSize s' = taskSize s - 1
            \<and> enqueued ls = [] \<and> dequeued ls = [hd (taskQue s)])"
  by (auto simp: threadFunc_fetch_def set_worker_def threads_erase_def notify_exitCond_def
      Let_def split: option.splits if_splits)

lemma wake_effect:
  "threadFunc_wake tid st now s = Done ls s' \<Longrightarrow>
   taskQue s' = taskQue s \<and> taskSize s' = taskSize s
   \<and> taskQueMaxThreshHold s' = taskQueMaxThreshHold s
   \<and> initThreadSize s' = initThreadSize s
   \<and> enqueued ls = [] \<and> dequeued ls = []
   \<and> (curThreadSize s' = curThreadSize s
       \<or> curThreadSize s' = curThreadSize s - 1
          \<and> sint (initThreadSize s) < sint (curThreadSize s))"
  by (auto simp: threadFunc_wake_def set_worker_def threads_erase_def Let_def idle_retire_cond_def
      split: option.splits if_splits)

lemma finish_frame:
  "taskQue (threadFunc_finish k w now s) = taskQue s
   \<and> taskSize (threadFunc_finish k w now s) = taskSize s
   \<and> taskQueMaxThreshHold (threadFunc_finish k w now s) = taskQueMaxThreshHold s
   \<and> curThreadSize (threadFunc_finish k w now s) = curThreadSize s
   \<and> initThreadSize (threadFunc_finish k w now s) = initThreadSize s"
  by (simp add: threadFunc_finish_def set_worker_def)

lemma dtor_frame:
  assumes "dtor_clear_flag s = Done ls s' \<or> dtor_notify s = Done ls s'
           \<or> dtor_wake spurious s = Done ls s'"
  shows "taskQue s' = taskQue s \<and> taskSize s' = taskSize s
   \<and> taskQueMaxThreshHold s' = taskQueMaxThreshHold s
   \<and> curThreadSize s' = curThreadSize s \<and> initThreadSize s' = initThreadSize s
   \<and> enqueued ls = [] \<and> dequeued ls = []"
  using assms
  by (auto simp: dtor_clear_flag_def dtor_notify_def dtor_wake_def dtor_threads_gone_def
      split: if_splits)

lemma exec_cpp_frame:
  "threadFunc_exec tid now s = Done ls s' \<Longrightarrow>
   taskQue s' = taskQue s \<and> taskSize s' = taskSize s
   \<and> taskQueMaxThreshHold s' = taskQueMaxThreshHold s
   \<and> curThreadSize s' = curThreadSize s \<and> initThreadSize s' = initThreadSize s
   \<and> ls = []"
  by (auto simp: threadFunc_exec_def Task_exec_def finish_frame
      split: option.splits wpc.splits result.splits completion.splits)


lemma submit_cpp_effect:
  assumes "submitTask sp r t s = Done ls s'"
  shows "submit_effect s ls s'"
proof (cases "notFull_pred s")
  case False
  with assms show ?thesis
    by (auto simp: submitTask_def submit_effect_def split: if_splits option.splits)
next
  case True
  obtain l1 t1 where c1: "cached_spawn (enqueue_task sp s) = (l1, t1)"
    by (cases "cached_spawn (enqueue_task sp s)")
  from assms True c1 obtain h where ls: "ls = [Enqueued sp, NotifyAll notEmpty] @ l1"
    and s': "s' = t1\<lparr>pool_state.more := h\<rparr>"
    by (auto simp: submitTask_def Let_def split: option.splits)
  note e1 = cached_spawn_enqueue [OF c1]
  show ?thesis
    unfolding submit_effect_def using True ls s' e1
    by (auto split: if_splits)
qed


lemma step_cases:
  assumes "step submit exec ev s = Done ls s'"
  obtains (config) "taskQue s' = taskQue s" "taskSize s' = taskSize s"
      "curThreadSize s' = curThreadSize s" "enqueued ls = []" "dequeued ls = []"
      "initThreadSize s' = initThreadSize s
       \<or> (\<exists>n. ev = SetInitThreadSize n \<and> initThreadSize s' = n)"
      "taskQueMaxThreshHold s' = taskQueMaxThreshHold s
       \<or> (\<exists>c. ev = SetTaskQueMaxThreshHold c \<and> \<not> isPoolRunning s \<and> taskQueMaxThreshHold s' = c)"
    | (start) n where "start n s = Done ls s'"
    | (submit) p t where "submit p t s = Done ls s'"
    | (fetch) tid where "threadFunc_fetch tid s = Done ls s'"
    | (wake) tid st now where "threadFunc_wake tid st now s = Done ls s'"
    | (exec) tid now where "exec tid now s = Done ls s'"
proof (cases ev)
  case (SetMode m)
  with assms show ?thesis by (intro config) (auto simp: step_def setMode_def)
next
  case (SetInitThreadSize n)
  with assms show ?thesis by (intro config) (auto simp: step_def setInitThreadSize_def)
next
  case (SetTaskQueMaxThreshHold c)
  with assms show ?thesis
    by (intro config) (auto simp: step_def setTaskQueMaxThreshHold_def checkRunningState_def)
next
  case (SetThreadSizeThreshHold c)
  with assms show ?thesis by (intro config) (auto simp: step_def setThreadSizeThreshHold_def)
next
  case (Start n)
  with assms show ?thesis by (intro start [of n]) (simp add: step_def)
next
  case (SubmitTask p t)
  with assms show ?thesis by (intro submit [of p t]) (simp add: step_def)
next
  case (WorkerBegin tid now)
  with assms have "threadFunc_begin tid now s = Done ls s'" by (simp add: step_def)
  from begin_frame [OF this] show ?thesis by (intro config) auto
next
  case (WorkerFetch tid)
  with assms show ?thesis by (intro fetch [of tid]) (simp add: step_def)
next
  case (WorkerWake tid st now)
  with assms show ?thesis by (intro wake [of tid st now]) (simp add: step_def)
next
  case (WorkerExec tid now)
  with assms show ?thesis by (intro exec [of tid now]) (simp add: step_def)
next
  case DtorClearFlag
  with assms have "dtor_clear_flag s = Done ls s'" by (simp add: step_def)
  then show ?thesis using dtor_frame [of s ls s'] by (intro config) auto
next
  case DtorNotify
  with assms have "dtor_notify s = Done ls s'" by (simp add: step_def)
  then show ?thesis using dtor_frame [of s ls s'] by (intro config) auto
next
  case (DtorWake spurious)
  with assms have "dtor_wake spurious s = Done ls s'" by (simp add: step_def)
  then show ?thesis using dtor_frame [of s ls s' spurious] by (intro config) auto
qed


lemma step_queue_inv:
  assumes sub: "\<And>p t s ls s'. submit p t s = Done ls s' \<Longrightarrow> submit_effect s ls s'"
      and ex: "\<And>tid now s ls s'. exec tid now s = Done ls s' \<Longrightarrow> exec_frame s ls s'"
      and st: "step submit exec ev s = Done ls s'"
      and kept: "capacity_kept ev s"
      and inv: "sint (taskSize s) = int (length (taskQue s))"
               "int (length (taskQue s)) \<le> sint (taskQueMaxThreshHold s)"
  shows "sint (taskSize s') = int (length (taskQue s'))
         \<and> int (length (taskQue s')) \<le> sint (taskQueMaxThreshHold s')"
  using st
proof (cases rule: step_cases)
  case config
  then show ?thesis using inv kept by (auto simp: capacity_kept_def)
next
  case (start n)
  from start_frame [OF this] show ?thesis using inv by simp
next
  case (submit p t)
  note eff = sub [OF this]
  show ?thesis
  proof (cases "taskQue s' = taskQue s \<and> taskSize s' = taskSize s")
    case True
    with eff inv show ?thesis by (simp add: submit_effect_def)
  next
    case False
    with eff obtain a where nf: "notFull_pred s" and q: "taskQue s' = taskQue s @ [a]"
      and ts: "taskSize s' = taskSize s + 1"
      and cap: "taskQueMaxThreshHold s' = taskQueMaxThreshHold s"
      by (auto simp: submit_effect_def)
    have nn: "0 \<le> sint (taskQueMaxThreshHold s)" using inv(2) by linarith
    from nf have lt: "int (length (taskQue s)) < sint (taskQueMaxThreshHold s)"
      using nn by (simp add: notFull_pred_def size_t_of_int_nonneg)
    then have "sint (taskSize s) < sint (taskQueMaxThreshHold s)" using inv(1) by simp
    then have "sint (taskSize s + 1) = sint (taskSize s) + 1" by (rule sint_succ)
    with q ts cap lt inv show ?thesis by simp
  qed
next
  case (fetch tid)
  note eff = fetch_effect [OF this]
  show ?thesis
  proof (cases "taskQue s")
    case Nil
    with eff inv show ?thesis by simp
  next
    case (Cons a q)
    with inv(1) have "sint (0 :: cint) < sint (taskSize s)" by simp
    then have "sint (taskSize s - 1) = sint (taskSize s) - 1" by (rule sint_pred)
    with eff Cons inv show ?thesis by simp
  qed
next
  case (wake tid st now)
  from wake_effect [OF this] show ?thesis using inv by simp
next
  case (exec tid now)
  from ex [OF this] show ?thesis using inv by (simp add: exec_frame_def)
qed


lemma exec_cpp_exec_frame: "threadFunc_exec tid now s = Done ls s' \<Longrightarrow> exec_frame s ls s'"
  by (drule exec_cpp_frame) (simp add: exec_frame_def)


lemma submit_cpp_effect': "(case p of (sp, r) \<Rightarrow> submitTask sp r) t s = Done ls s' \<Longrightarrow> submit_effect s ls s'"
  by (cases p) (simp add: submit_cpp_effect)



lemma cpp_queue_inv:
  "step_cpp ev s = Done ls s' \<Longrightarrow> capacity_kept ev s \<Longrightarrow>
   sint (taskSize s) = int (length (taskQue s)) \<Longrightarrow>
   int (length (taskQue s)) \<le> sint (taskQueMaxThreshHold s) \<Longrightarrow>
   sint (taskSize s') = int (length (taskQue s'))
   \<and> int (length (taskQue s')) \<le> sint (taskQueMaxThreshHold s')"
  unfolding step_cpp_def
  by (erule step_queue_inv [rotated 2]) (erule submit_cpp_effect' exec_cpp_exec_frame | assumption)+




section \<open>Runs\<close>


lemma exec_events_queue_inv:
  assumes stp: "\<And>ev s ls s'. stp ev s = Done ls s' \<Longrightarrow> capacity_kept ev s \<Longrightarrow>
     sint (taskSize s) = int (length (taskQue s)) \<Longrightarrow>
     int (length (taskQue s)) \<le> sint (taskQueMaxThreshHold s) \<Longrightarrow>
     sint (taskSize s') = int (length (taskQue s'))
     \<and> int (length (taskQue s')) \<le> sint (taskQueMaxThreshHold s')"
    and "capacity_respected stp evs s"
    and "sint (taskSize s) = int (length (taskQue s))"
    and "int (length (taskQue s)) \<le> sint (taskQueMaxThreshHold s)"
  shows "sint (taskSize (snd (exec_events stp evs s)))
           = int (length (taskQue (snd (exec_events stp evs s))))
         \<and> int (length (taskQue (snd (exec_events stp evs s))))
           \<le> sint (taskQueMaxThreshHold (snd (exec_events stp evs s)))"
  using assms(2-4)
proof (induction evs arbitrary: s)
  case Nil
  then show ?case by simp
next
  case (Cons ev evs)
  show ?case
  proof (cases "stp ev s")
    case Blocked
    with Cons.prems Cons.IH [of s] show ?thesis by simp
  next
    case (Abort e)
    with Cons.prems show ?thesis by simp
  next
    case (Done ls s')
    with Cons.prems have kept: "capacity_kept ev s" and rest: "capacity_respected stp evs s'"
      by simp_all
    from stp [OF Done kept Cons.prems(2,3)] Cons.IH [OF rest] Done
    show ?thesis by (simp add: split_beta)
  qed
qed

section \<open>The floor of the worker count, and the hand-over of tasks\<close>













section \<open>The loop of \<^verbatim>\<open>MyTask::run\<close>\<close>

lemma MyTask_loop_closed:
  "unat e < 2 ^ 64 - 1 \<Longrightarrow> unat i \<le> unat e + 1 \<Longrightarrow> n = unat e + 1 - unat i \<Longrightarrow>
   MyTask_loop i e acc = Some (acc + of_nat (\<Sum>k = unat i..<unat e + 1. k))"
proof (induction n arbitrary: i acc)
  case 0
  then have eq: "unat i = unat e + 1" by simp
  then have "\<not> i \<le> e" by (simp add: word_le_nat_alt)
  then show ?case using eq by (subst MyTask_loop.simps) simp
next
  case (Suc n)
  then have le: "unat i \<le> unat e" by simp
  then have ile: "i \<le> e" by (simp add: word_le_nat_alt)
  have u1: "unat (i + 1) = unat i + 1"
    using le Suc.prems(1) by (simp add: unat_word_ariths)
  have "MyTask_loop (i + 1) e (acc + i)
        = Some (acc + i + of_nat (\<Sum>k = unat (i + 1)..<unat e + 1. k))"
    by (rule Suc.IH) (use Suc.prems u1 le in simp_all)
  moreover have "(\<Sum>k = unat i..<unat e + 1. k)
                 = unat i + (\<Sum>k = unat (i + 1)..<unat e + 1. k)"
    using le u1 by (simp add: sum.atLeast_Suc_lessThan)
  ultimately show ?case using ile
    by (subst MyTask_loop.simps) (simp add: add.assoc)
qed

lemma sum_from_1: "(\<Sum>k = 1..<Suc n. k) = n * (n + 1) div 2"
proof -
  have "(\<Sum>k = 0..n. k) = 0 + (\<Sum>k = Suc 0..n. k)"
    by (rule sum.atLeast_Suc_atMost) simp
  then have "(\<Sum>k = 1..<Suc n. k) = (\<Sum>k = 0..n. k)"
    by (simp add: atLeastLessThanSuc_atLeastAtMost)
  then show ?thesis by (simp add: gauss_sum_nat)
qed

lemma MyTask_loop_demo: "MyTask_loop 1 10000000 0 = Some 50000005000000"
proof -
  have "MyTask_loop (1 :: ulong) 10000000 0
        = Some (0 + of_nat (\<Sum>k = unat (1 :: ulong)..<unat (10000000 :: ulong) + 1. k))"
    by (rule MyTask_loop_closed [OF _ _ refl]) simp_all
  also have "(\<Sum>k = unat (1 :: ulong)..<unat (10000000 :: ulong) + 1. k)
             = 10000000 * (10000000 + 1) div 2"
    using sum_from_1 [of 10000000] by simp
  finally show ?thesis by simp
qed

lemma MyTask_run_demo: "MyTask_run 1 10000000 = Some (Returned (AnyULong 50000005000000))"
  by (simp add: MyTask_run_def MyTask_loop_demo)

section \<open>Evaluating concrete runs\<close>

lemmas run_defs =
  step_cpp_def step_final_def step_def submit_final_def start_def
  setMode_def setInitThreadSize_def setTaskQueMaxThreshHold_def
  setThreadSizeThreshHold_def checkRunningState_def
  Thread_new_def threads_emplace_def threads_erase_def Thread_start_def
  notFull_pred_def enqueue_task_def spawn_wanted_def cached_spawn_def
  set_worker_def threadFunc_begin_def threadFunc_fetch_def idle_retire_cond_def
  threadFunc_wake_def threadFunc_finish_def notify_exitCond_def
  dtor_clear_flag_def dtor_threads_gone_def dtor_notify_def dtor_wake_def
  heap_def Result_ctor_def Result_setVal_def Result_get_def Task_exec_def
  submitTask_def threadFunc_exec_def Semaphore_post_def Semaphore_wait_def
  fheap_def make_packaged_task_def packaged_task_call_def future_get_def
  submitTask_final_def threadFunc_exec_final_def
  ThreadPool_def size_t_of_int_def TASK_MAX_THRESHHOLD_def INT32_MAX_def
  THREAD_MAX_THRESHHOLD_def THREAD_MAX_IDLE_TIME_def duration_cast_seconds_def
  returned_def capacity_kept_def floor_kept_def future_valid_def Let_def
  handed_over_def submitted_cpp_def submitted_final_def zero_call_def
  main_pool_def final_pool_def failing_pool_def failing_task_def failing_call_def
  sum1_call_def MyTask_def MyTask_run_demo


lemma upt_0_3: "[0..<3] = [0, 1, 2]"
  by (simp add: numeral_eq_Suc)

lemma upt_0_4: "[0..<4] = [0, 1, 2, 3]"
  by (simp add: numeral_eq_Suc)

section \<open>Admission control\<close>

text \<open>
  C1, as amended. A submission that finds the queue at capacity when the one-second wait on
  \<^verbatim>\<open>notFull_\<close> ends is rejected: until the time is up the caller stays in the wait,
  then \<^verbatim>\<open>submitTask\<close> returns with the pool (queue and counters) unchanged, and
  \<^verbatim>\<open>get()\<close> on the handle returns at once. In \<^verbatim>\<open>ThreadCpp\<close> the handle is a
  \<^verbatim>\<open>Result\<close> marked invalid, and \<^verbatim>\<open>get()\<close> returns the empty string without
  touching the semaphore. In \<^verbatim>\<open>ThreadCppFinal\<close> the handle is not marked: it is a
  valid future whose task has already run and which holds \<^verbatim>\<open>RType()\<close>.
\<close>

theorem rejected_submission:
  assumes "\<not> notFull_pred s" and "taskObjs (heap s) sp = Some t" and "\<not> notFull_pred s2"
  shows "submitTask sp r False s = Blocked
    \<and> (\<exists>s'. submitTask sp r True s = Done [] s'
          \<and> s' = s\<lparr>pool_state.more := heap s'\<rparr>
          \<and> taskQue s' = taskQue s \<and> taskSize s' = taskSize s
          \<and> results (heap s') r = Some \<lparr>isValid = False, task = sp, any = AnyEmpty, sem = 0\<rparr>
          \<and> Result_get r (heap s') = Done [] (AnyCStr '''', heap s'))
    \<and> submitTask_final f dflt False s2 = Blocked
    \<and> (\<exists>a s2'. submitTask_final f dflt True s2 = Done [] (a, s2')
          \<and> s2' = s2\<lparr>pool_state.more := fheap s2'\<rparr>
          \<and> taskQue s2' = taskQue s2 \<and> taskSize s2' = taskSize s2
          \<and> future_valid a (fheap s2')
          \<and> ptasks (fheap s2') a
              = Some \<lparr>fn = \<lambda>_. Some (Returned dflt), shared = Some (Returned dflt)\<rparr>
          \<and> future_get a (fheap s2') = Done [] (Returned dflt))"
proof -
  have cpp_wait: "submitTask sp r False s = Blocked"
    using assms(1) by (simp add: submitTask_def)
  have cpp: "\<exists>s'. submitTask sp r True s = Done [] s'
          \<and> s' = s\<lparr>pool_state.more := heap s'\<rparr>
          \<and> taskQue s' = taskQue s \<and> taskSize s' = taskSize s
          \<and> results (heap s') r = Some \<lparr>isValid = False, task = sp, any = AnyEmpty, sem = 0\<rparr>
          \<and> Result_get r (heap s') = Done [] (AnyCStr '''', heap s')"
    using assms(1,2) by (simp add: submitTask_def Result_ctor_def heap_def Result_get_def)
  have fin_wait: "submitTask_final f dflt False s2 = Blocked"
    using assms(3) by (simp add: submitTask_final_def make_packaged_task_def)
  have fin: "\<exists>a s2'. submitTask_final f dflt True s2 = Done [] (a, s2')
          \<and> s2' = s2\<lparr>pool_state.more := fheap s2'\<rparr>
          \<and> taskQue s2' = taskQue s2 \<and> taskSize s2' = taskSize s2
          \<and> future_valid a (fheap s2')
          \<and> ptasks (fheap s2') a
              = Some \<lparr>fn = \<lambda>_. Some (Returned dflt), shared = Some (Returned dflt)\<rparr>
          \<and> future_get a (fheap s2') = Done [] (Returned dflt)"
    using assms(3)
    by (simp add: submitTask_final_def make_packaged_task_def packaged_task_call_def
        fheap_def future_get_def future_valid_def)
  from cpp_wait cpp fin_wait fin show ?thesis by blast
qed

theorem rejected_submission_witness:
  "\<not> notFull_pred full_state_cpp \<and> \<not> notFull_pred full_state
   \<and> taskQue full_state_cpp = [0] \<and> taskQue full_state = [0]
   \<and> taskObjs (heap full_state_cpp) 0 = Some ((MyTask 1 10000000)\<lparr>result := Some 0\<rparr>)
   \<and> submitTask 0 1 False full_state_cpp = Blocked
   \<and> taskQue (snd (exec_events step_cpp [SubmitTask (0, 1) True] full_state_cpp)) = [0]
   \<and> returned (Result_get 1 (heap (snd (exec_events step_cpp [SubmitTask (0, 1) True] full_state_cpp))))
       = Some (AnyCStr '''')
   \<and> returned (submitTask_final (fst sum1_call) 0 True full_state) = Some 2
   \<and> taskQue rejected_state = [0]
   \<and> future_valid 2 (fheap rejected_state)
   \<and> future_get 2 (fheap rejected_state) = Done [] (Returned 0)"
proof -
  have h1: "\<not> notFull_pred full_state_cpp"
    by (simp add: full_state_cpp_def run_defs)
  have h2: "taskObjs (heap full_state_cpp) 0 = Some ((MyTask 1 10000000)\<lparr>result := Some 0\<rparr>)"
    by (simp add: full_state_cpp_def run_defs)
  have h3: "\<not> notFull_pred full_state"
    by (simp add: full_state_def run_defs)
  show ?thesis
    using rejected_submission [OF h1 h2 h3, of 1 "fst sum1_call" 0] h1 h2 h3
    by (simp add: full_state_cpp_def full_state_def rejected_state_def run_defs)
qed

text \<open>
  The claim's invalid handle is missing in \<^verbatim>\<open>ThreadCppFinal\<close>. The handle of the
  rejected submission (address 2) is a valid, ready future holding 0, as is the handle (address
  0) of a task that was admitted, run by a worker and returned 0.
\<close>

theorem rejected_handle_not_marked_counterexample:
  "\<not> notFull_pred full_state
   \<and> returned (submitTask_final (fst sum1_call) (snd sum1_call) True full_state) = Some 2
   \<and> future_valid 2 (fheap rejected_state)
   \<and> map_option shared (ptasks (fheap rejected_state) 2) = Some (Some (Returned 0))
   \<and> future_get 2 (fheap rejected_state) = Done [] (Returned 0)
   \<and> enqueued (fst (exec_events step_final
        [Start 1, SubmitTask zero_call False, WorkerBegin 0 0, WorkerFetch 0, WorkerExec 0 0]
        final_pool)) = [0]
   \<and> future_valid 0 (fheap served_state)
   \<and> map_option shared (ptasks (fheap served_state) 0) = Some (Some (Returned 0))
   \<and> future_get 0 (fheap served_state) = Done [] (Returned 0)"
  by (simp add: full_state_def rejected_state_def served_state_def run_defs)

section \<open>Errors raised by a task\<close>

text \<open>
  C2, as amended. In the pool of \<^verbatim>\<open>ThreadCppFinal\<close> a worker that runs a task
  stores what the task does, the value it returns or the exception it throws, in the shared
  state of the task's future; the worker goes back to the head of its loop with its record
  still in the pool, and \<^verbatim>\<open>future::get\<close> hands that outcome to the submitter. In the
  pool of \<^verbatim>\<open>ThreadCpp\<close> nothing catches: whenever a worker runs a task that has a
  result slot and whose \<^verbatim>\<open>run()\<close> throws, the exception leaves
  \<^verbatim>\<open>threadFunc\<close> and the process terminates.
\<close>

theorem task_outcome_reaches_future:
  fixes s :: "'r final_state" and c :: cpp_state
  shows
   "(workers s k = Some w \<and> pc w = Executing a
       \<and> ptasks (fheap s) a = Some p \<and> shared p = None \<and> fn p () = Some oc
     \<longrightarrow> (\<exists>s'. threadFunc_exec_final k now s = Done [] s'
            \<and> workers s' k = Some (w\<lparr>pc := Fetching, lastTime := now\<rparr>)
            \<and> threads s' = threads s \<and> isPoolRunning s' = isPoolRunning s
            \<and> curThreadSize s' = curThreadSize s
            \<and> idleThreadSize s' = idleThreadSize s + 1
            \<and> taskQue s' = taskQue s
            \<and> future_get a (fheap s') = Done [] oc))
    \<and> (workers c ck = Some cw \<and> pc cw = Executing sp
       \<and> taskObjs (heap c) sp = Some t \<and> result t = Some r \<and> run t () = Some (Thrown e)
     \<longrightarrow> threadFunc_exec ck cnow c = Abort (Terminate e))"
  by (simp add: threadFunc_exec_final_def packaged_task_call_def threadFunc_finish_def
      set_worker_def fheap_def future_get_def threadFunc_exec_def Task_exec_def)

theorem task_outcome_reaches_future_witness:
  "workers failing_state 0 = Some \<lparr>threadid = 0, pc = Executing 0, lastTime = 0\<rparr>
   \<and> ptasks (fheap failing_state) 0 = Some \<lparr>fn = fst failing_call, shared = None\<rparr>
   \<and> fst failing_call () = Some (Thrown (Exn ''task failed''))
   \<and> workers (snd (exec_events step_final [WorkerExec 0 5] failing_state)) 0
       = Some \<lparr>threadid = 0, pc = Fetching, lastTime = 5\<rparr>
   \<and> threads (snd (exec_events step_final [WorkerExec 0 5] failing_state)) = [0]
   \<and> future_get 0 (fheap (snd (exec_events step_final [WorkerExec 0 5] failing_state)))
       = Done [] (Thrown (Exn ''task failed''))
   \<and> workers failing_state_cpp 0 = Some \<lparr>threadid = 0, pc = Executing 0, lastTime = 0\<rparr>
   \<and> taskObjs (heap failing_state_cpp) 0 = Some (failing_task\<lparr>result := Some 0\<rparr>)
   \<and> run failing_task () = Some (Thrown (Exn ''task failed''))
   \<and> threadFunc_exec 0 5 failing_state_cpp = Abort (Terminate (Exn ''task failed''))"
proof -
  have h1: "workers failing_state 0 = Some \<lparr>threadid = 0, pc = Executing 0, lastTime = 0\<rparr>"
    by (simp add: failing_state_def run_defs)
  have h3: "ptasks (fheap failing_state) 0 = Some \<lparr>fn = fst failing_call, shared = None\<rparr>"
    by (simp add: failing_state_def run_defs)
  have h5: "fst failing_call () = Some (Thrown (Exn ''task failed''))"
    by (simp add: failing_call_def)
  have c1: "workers failing_state_cpp 0 = Some \<lparr>threadid = 0, pc = Executing 0, lastTime = 0\<rparr>"
    by (simp add: failing_state_cpp_def failing_run_def run_defs)
  have c2: "taskObjs (heap failing_state_cpp) 0 = Some (failing_task\<lparr>result := Some 0\<rparr>)"
    by (simp add: failing_state_cpp_def failing_run_def run_defs)
  have c3: "run (failing_task\<lparr>result := Some 0\<rparr>) () = Some (Thrown (Exn ''task failed''))"
    by (simp add: failing_task_def)
  show ?thesis
    using task_outcome_reaches_future
      [where s = failing_state and k = 0
         and w = "\<lparr>threadid = 0, pc = Executing 0, lastTime = 0\<rparr>" and a = 0
         and p = "\<lparr>fn = fst failing_call, shared = None\<rparr>"
         and oc = "Thrown (Exn ''task failed'')" and now = 5
         and c = failing_state_cpp and ck = 0
         and cw = "\<lparr>threadid = 0, pc = Executing 0, lastTime = 0\<rparr>" and sp = 0
         and t = "failing_task\<lparr>result := Some 0\<rparr>" and r = 0
         and e = "Exn ''task failed''" and cnow = 5]
      h1 h3 h5 c1 c2 c3
    by (simp add: failing_state_def run_defs)
qed

text \<open>
  The claim fails for the pool of \<^verbatim>\<open>ThreadCpp\<close>: \<^verbatim>\<open>Task::exec\<close> calls
  \<^verbatim>\<open>run()\<close> with no handler around it and neither does \<^verbatim>\<open>threadFunc\<close>,
  so an exception thrown by the task leaves the thread function and ends the process.
\<close>

theorem uncaught_task_error_counterexample:
  "workers failing_state_cpp 0 = Some \<lparr>threadid = 0, pc = Executing 0, lastTime = 0\<rparr>
   \<and> taskObjs (heap failing_state_cpp) 0 = Some (failing_task\<lparr>result := Some 0\<rparr>)
   \<and> run failing_task () = Some (Thrown (Exn ''task failed''))
   \<and> threadFunc_exec 0 5 failing_state_cpp = Abort (Terminate (Exn ''task failed''))"
  by (simp add: failing_state_cpp_def failing_run_def run_defs)

section \<open>Growth of a cached pool\<close>

text \<open>
  C3, as amended. An admitted submission starts exactly one more worker, and adds one to the
  current and to the idle worker count, if and only if the pool is in cached mode, the task
  count (after the new task is counted) exceeds the idle count and the current worker count is
  below the ceiling; otherwise it starts none and leaves both counts alone. Hence a submission
  never lifts the worker count above the ceiling: a count that is at most the ceiling before the
  submission is at most the ceiling after it. Both pools.
\<close>

theorem submission_spawns_one_worker:
  fixes s :: cpp_state and s2 :: "'r final_state"
  defines "w \<equiv> poolMode s = MODE_CACHED
                \<and> sint (idleThreadSize s) < sint (taskSize s + 1)
                \<and> sint (curThreadSize s) < sint (threadSizeThreshHold s)"
      and "w2 \<equiv> poolMode s2 = MODE_CACHED
                \<and> sint (idleThreadSize s2) < sint (taskSize s2 + 1)
                \<and> sint (curThreadSize s2) < sint (threadSizeThreshHold s2)"
  assumes "notFull_pred s" and "submitTask sp r timed_out s = Done ls s'"
      and "notFull_pred s2" and "submitTask_final f dflt timed_out2 s2 = Done ls2 (a, s2')"
  shows "ls = [Enqueued sp, NotifyAll notEmpty] @ (if w then [ThreadStarted (generateId s)] else [])
     \<and> curThreadSize s' = (if w then curThreadSize s + 1 else curThreadSize s)
     \<and> idleThreadSize s' = (if w then idleThreadSize s + 1 else idleThreadSize s)
     \<and> workers s' = (if w then (workers s)(spawned s \<mapsto>
                         \<lparr>threadid = generateId s, pc = Spawned, lastTime = 0\<rparr>)
                      else workers s)
     \<and> threads s' = (if w then threads (threads_emplace (generateId s) s) else threads s)
     \<and> sint (curThreadSize s') = (if w then sint (curThreadSize s) + 1 else sint (curThreadSize s))
     \<and> threadSizeThreshHold s' = threadSizeThreshHold s
     \<and> (sint (curThreadSize s) \<le> sint (threadSizeThreshHold s)
          \<longrightarrow> sint (curThreadSize s') \<le> sint (threadSizeThreshHold s'))
     \<and> ls2 = [Enqueued a, NotifyAll notEmpty] @ (if w2 then [ThreadStarted (generateId s2)] else [])
     \<and> curThreadSize s2' = (if w2 then curThreadSize s2 + 1 else curThreadSize s2)
     \<and> idleThreadSize s2' = (if w2 then idleThreadSize s2 + 1 else idleThreadSize s2)
     \<and> workers s2' = (if w2 then (workers s2)(spawned s2 \<mapsto>
                         \<lparr>threadid = generateId s2, pc = Spawned, lastTime = 0\<rparr>)
                       else workers s2)
     \<and> threads s2' = (if w2 then threads (threads_emplace (generateId s2) s2) else threads s2)
     \<and> sint (curThreadSize s2') = (if w2 then sint (curThreadSize s2) + 1 else sint (curThreadSize s2))
     \<and> threadSizeThreshHold s2' = threadSizeThreshHold s2
     \<and> (sint (curThreadSize s2) \<le> sint (threadSizeThreshHold s2)
          \<longrightarrow> sint (curThreadSize s2') \<le> sint (threadSizeThreshHold s2'))"
proof -
  obtain l1 t1 where c1: "cached_spawn (enqueue_task sp s) = (l1, t1)"
    by (cases "cached_spawn (enqueue_task sp s)")
  from assms(3,4) c1 obtain h where ls: "ls = [Enqueued sp, NotifyAll notEmpty] @ l1"
    and s': "s' = t1\<lparr>pool_state.more := h\<rparr>"
    by (auto simp: submitTask_def Let_def split: option.splits)
  note e1 = cached_spawn_enqueue [OF c1]
  have sint1: "sint (curThreadSize s')
               = (if w then sint (curThreadSize s) + 1 else sint (curThreadSize s))"
    using e1(2) s' by (auto simp: w_def sint_succ)
  have A: "ls = [Enqueued sp, NotifyAll notEmpty] @ (if w then [ThreadStarted (generateId s)] else [])
     \<and> curThreadSize s' = (if w then curThreadSize s + 1 else curThreadSize s)
     \<and> idleThreadSize s' = (if w then idleThreadSize s + 1 else idleThreadSize s)
     \<and> workers s' = (if w then (workers s)(spawned s \<mapsto>
                         \<lparr>threadid = generateId s, pc = Spawned, lastTime = 0\<rparr>)
                      else workers s)
     \<and> threads s' = (if w then threads (threads_emplace (generateId s) s) else threads s)
     \<and> threadSizeThreshHold s' = threadSizeThreshHold s"
    using e1 ls s' by (simp add: w_def)
  have B: "sint (curThreadSize s) \<le> sint (threadSizeThreshHold s)
          \<longrightarrow> sint (curThreadSize s') \<le> sint (threadSizeThreshHold s')"
    using sint1 A by (auto simp: w_def)
  define s0 where "s0 = s2\<lparr>pool_state.more := snd (make_packaged_task f (fheap s2))\<rparr>"
  have a0: "fst (make_packaged_task f (fheap s2)) = a"
    using assms(5,6) by (auto simp: submitTask_final_def Let_def split: prod.splits)
  obtain l2 t2 where c2: "cached_spawn (enqueue_task a s0) = (l2, t2)"
    by (cases "cached_spawn (enqueue_task a s0)")
  from assms(5,6) c2 a0 have ls2: "ls2 = [Enqueued a, NotifyAll notEmpty] @ l2" and s2': "s2' = t2"
    by (auto simp: submitTask_final_def Let_def s0_def split: prod.splits)
  note e2 = cached_spawn_enqueue [OF c2]
  have sint2: "sint (curThreadSize s2')
               = (if w2 then sint (curThreadSize s2) + 1 else sint (curThreadSize s2))"
    using e2(2) s2' by (auto simp: w2_def s0_def sint_succ)
  have C: "ls2 = [Enqueued a, NotifyAll notEmpty] @ (if w2 then [ThreadStarted (generateId s2)] else [])
     \<and> curThreadSize s2' = (if w2 then curThreadSize s2 + 1 else curThreadSize s2)
     \<and> idleThreadSize s2' = (if w2 then idleThreadSize s2 + 1 else idleThreadSize s2)
     \<and> workers s2' = (if w2 then (workers s2)(spawned s2 \<mapsto>
                         \<lparr>threadid = generateId s2, pc = Spawned, lastTime = 0\<rparr>)
                       else workers s2)
     \<and> threads s2' = (if w2 then threads (threads_emplace (generateId s2) s2) else threads s2)
     \<and> threadSizeThreshHold s2' = threadSizeThreshHold s2"
    using e2 ls2 s2' by (simp add: w2_def s0_def threads_emplace_def)
  have D: "sint (curThreadSize s2) \<le> sint (threadSizeThreshHold s2)
          \<longrightarrow> sint (curThreadSize s2') \<le> sint (threadSizeThreshHold s2')"
    using sint2 C by (auto simp: w2_def)
  from A B C D sint1 sint2 show ?thesis by blast
qed

theorem submission_spawns_one_worker_witness:
  "notFull_pred cached_state_cpp \<and> notFull_pred cached_state
   \<and> poolMode cached_state_cpp = MODE_CACHED \<and> poolMode cached_state = MODE_CACHED
   \<and> curThreadSize cached_state_cpp = 0 \<and> curThreadSize cached_state = 0
   \<and> exec_events step_cpp [SubmitTask (0, 0) False] cached_state_cpp
       = ([Enqueued 0, NotifyAll notEmpty, ThreadStarted 0],
          snd (exec_events step_cpp [SubmitTask (0, 0) False] cached_state_cpp))
   \<and> curThreadSize (snd (exec_events step_cpp [SubmitTask (0, 0) False] cached_state_cpp)) = 1
   \<and> idleThreadSize (snd (exec_events step_cpp [SubmitTask (0, 0) False] cached_state_cpp)) = 1
   \<and> exec_events step_final [SubmitTask sum1_call False] cached_state
       = ([Enqueued 0, NotifyAll notEmpty, ThreadStarted 0],
          snd (exec_events step_final [SubmitTask sum1_call False] cached_state))
   \<and> curThreadSize (snd (exec_events step_final [SubmitTask sum1_call False] cached_state)) = 1
   \<and> idleThreadSize (snd (exec_events step_final [SubmitTask sum1_call False] cached_state)) = 1"
proof -
  have h1: "notFull_pred cached_state_cpp"
    by (simp add: cached_state_cpp_def run_defs)
  have h2: "submitTask 0 0 False cached_state_cpp
            = Done (fst (exec_events step_cpp [SubmitTask (0, 0) False] cached_state_cpp))
                (snd (exec_events step_cpp [SubmitTask (0, 0) False] cached_state_cpp))"
    by (simp add: cached_state_cpp_def run_defs)
  have h3: "notFull_pred cached_state"
    by (simp add: cached_state_def run_defs)
  have h4: "submitTask_final (fst sum1_call) 0 False cached_state
            = Done (fst (exec_events step_final [SubmitTask sum1_call False] cached_state))
                (0, snd (exec_events step_final [SubmitTask sum1_call False] cached_state))"
    by (simp add: cached_state_def run_defs)
  show ?thesis
    using submission_spawns_one_worker [OF h1 h2 h3 h4] h1 h3
    by (simp add: cached_state_cpp_def cached_state_def run_defs)
qed

text \<open>
  The claim's last clause fails as a property of the pool: \<^verbatim>\<open>start(n)\<close> sets the
  worker count to \<open>n\<close> without looking at the ceiling. A cached pool with ceiling 2 that is
  started with 3 workers has 3 workers, also after a submission it admits.
\<close>

theorem worker_count_above_ceiling_counterexample:
  "fst (exec_events step_final overshoot_run final_pool)
     = [ThreadStarted 0, ThreadStarted 1, ThreadStarted 2, Enqueued 0, NotifyAll notEmpty]
   \<and> poolMode (snd (exec_events step_final overshoot_run final_pool)) = MODE_CACHED
   \<and> curThreadSize (snd (exec_events step_final overshoot_run final_pool)) = 3
   \<and> threadSizeThreshHold (snd (exec_events step_final overshoot_run final_pool)) = 2
   \<and> sint (2 :: cint) < sint (3 :: cint)"
  by (simp add: overshoot_run_def run_defs upt_0_3)

section \<open>Retirement of idle workers\<close>




section \<open>The task counter and the queue\<close>



text \<open>The same holds of the pool of \<^verbatim>\<open>ThreadCpp\<close>.\<close>

lemma counter_matches_queue_cpp:
  assumes "capacity_respected step_cpp evs (ThreadPool g h)"
  shows "sint (taskSize (snd (exec_events step_cpp evs (ThreadPool g h))))
           = int (length (taskQue (snd (exec_events step_cpp evs (ThreadPool g h)))))
         \<and> int (length (taskQue (snd (exec_events step_cpp evs (ThreadPool g h)))))
           \<le> sint (taskQueMaxThreshHold (snd (exec_events step_cpp evs (ThreadPool g h))))"
proof (rule exec_events_queue_inv [of step_cpp])
  show "capacity_respected step_cpp evs (ThreadPool g h)" by (rule assms)
  show "sint (taskSize (ThreadPool g h)) = int (length (taskQue (ThreadPool g h)))"
    by (simp add: ThreadPool_def)
  show "int (length (taskQue (ThreadPool g h))) \<le> sint (taskQueMaxThreshHold (ThreadPool g h))"
    by (simp add: ThreadPool_def TASK_MAX_THRESHHOLD_def INT32_MAX_def)
qed (rule cpp_queue_inv)


section \<open>Shutdown and the idle-time exit\<close>

text \<open>
  C6. The running flag is tested at the head of the wait loop; after the timed wait of cached
  mode returns it is not tested again before the idle-time test. The run evaluated here: the
  only worker of a cached pool has been idle for 59 seconds and is in its timed wait, the queue
  is empty; the destructor clears the running flag; the wait times out at second 60. The worker
  leaves through the idle-time exit, with the flag cleared and the queue empty, and
  \<^verbatim>\<open>exitCond_\<close> is not notified. When the destructor has gone to sleep on
  \<^verbatim>\<open>exitCond_\<close> before the worker gets the mutex, the last worker is gone and the
  destructor still sleeps: its wait tests the predicate again only when it is woken.
\<close>

theorem idle_exit_after_shutdown_began:
  "\<not> isPoolRunning race_state \<and> taskQue race_state = []
   \<and> workers race_state 0 = Some \<lparr>threadid = 0, pc = WaitCached, lastTime = 0\<rparr>
   \<and> fst (exec_events step_final [WorkerWake 0 timeout 60000000000] race_state)
       = [ThreadExit 0 IdleTimeout]
   \<and> threads (snd (exec_events step_final [WorkerWake 0 timeout 60000000000] race_state)) = []
   \<and> workers (snd (exec_events step_final [WorkerWake 0 timeout 60000000000] race_state)) 0
       = Some \<lparr>threadid = 0, pc = Retired, lastTime = 0\<rparr>
   \<and> fst (exec_events step_final stuck_run final_pool)
       = [Enqueued 0, NotifyAll notEmpty, ThreadStarted 0, Dequeued 0, NotifyAll notFull,
          NotifyAll notEmpty, ThreadExit 0 IdleTimeout]
   \<and> \<not> isPoolRunning stuck_state \<and> taskQue stuck_state = [] \<and> threads stuck_state = []
   \<and> spawned stuck_state = 1
   \<and> workers stuck_state 0 = Some \<lparr>threadid = 0, pc = Retired, lastTime = 0\<rparr>
   \<and> dtor stuck_state = DtorWaiting
   \<and> dtor_wake False stuck_state = Blocked"
  by (simp add: race_state_def stuck_state_def stuck_run_def idle_run_def run_defs)

text \<open>What the claim says of the test at the head of the loop does hold.\<close>

lemma shutdown_exit_at_loop_test:
  assumes "workers s k = Some w" and "pc w = Fetching"
      and "taskQue s = []" and "\<not> isPoolRunning s"
  shows "threadFunc_fetch k s
         = Done [NotifyAll exitCond, ThreadExit (threadid w) PoolShutdown]
             (set_worker k (w\<lparr>pc := Retired\<rparr>)
                (notify_exitCond (threads_erase (threadid w) s)))"
  using assms by (simp add: threadFunc_fetch_def)

section \<open>Configuration\<close>

text \<open>
  C7, as amended. On a started pool the setters of the mode, the queue capacity and the worker
  ceiling change nothing. Before \<^verbatim>\<open>start\<close>, \<^verbatim>\<open>setMode\<close> and
  \<^verbatim>\<open>setTaskQueMaxThreshHold\<close> store their argument, and
  \<^verbatim>\<open>setThreadSizeThreshHold\<close> stores it only if the mode is already
  \<^verbatim>\<open>MODE_CACHED\<close>.
\<close>

theorem setters_guarded:
  "(isPoolRunning s \<longrightarrow>
      setMode m s = s \<and> setTaskQueMaxThreshHold c s = s \<and> setThreadSizeThreshHold c s = s)
   \<and> (\<not> isPoolRunning s \<longrightarrow>
      setMode m s = s\<lparr>poolMode := m\<rparr>
      \<and> setTaskQueMaxThreshHold c s = s\<lparr>taskQueMaxThreshHold := c\<rparr>
      \<and> setThreadSizeThreshHold c s =
          (if poolMode s = MODE_CACHED then s\<lparr>threadSizeThreshHold := c\<rparr> else s))"
  by (simp add: setMode_def setTaskQueMaxThreshHold_def setThreadSizeThreshHold_def
      checkRunningState_def)

theorem setters_guarded_witness:
  "setMode MODE_CACHED ((ThreadPool 0 ())\<lparr>isPoolRunning := True\<rparr>)
     = (ThreadPool 0 ())\<lparr>isPoolRunning := True\<rparr>
   \<and> poolMode (setMode MODE_CACHED (ThreadPool 0 ())) = MODE_CACHED
   \<and> taskQueMaxThreshHold (setTaskQueMaxThreshHold 20 (ThreadPool 0 ())) = 20
   \<and> threadSizeThreshHold (setThreadSizeThreshHold 20 (setMode MODE_CACHED (ThreadPool 0 ()))) = 20"
  using setters_guarded [of "(ThreadPool 0 ())\<lparr>isPoolRunning := True\<rparr>" MODE_CACHED 20]
    setters_guarded [of "ThreadPool 0 ()" MODE_CACHED 20]
    setters_guarded [of "(ThreadPool 0 ())\<lparr>poolMode := MODE_CACHED\<rparr>" MODE_CACHED 20]
  by (simp add: ThreadPool_def)

text \<open>
  The claim fails for the worker ceiling: a pool just built is in fixed mode and not started,
  and \<^verbatim>\<open>setThreadSizeThreshHold(20)\<close> leaves its ceiling at 10.
\<close>

theorem ceiling_setter_fixed_mode_counterexample:
  "\<not> isPoolRunning (ThreadPool 0 ())
   \<and> threadSizeThreshHold (setThreadSizeThreshHold 20 (ThreadPool 0 ())) = 10
   \<and> (10 :: cint) \<noteq> 20"
  by (simp add: setMode_def setThreadSizeThreshHold_def checkRunningState_def ThreadPool_def
      THREAD_MAX_THRESHHOLD_def)

text \<open>
  C10. For every int \<open>sz\<close> and every pool state, started or not,
  \<^verbatim>\<open>setInitThreadSize(sz)\<close> stores \<open>sz\<close> in the initial worker count and changes
  nothing else; the running flag is not consulted, while the three guarded setters change
  nothing on a started pool. The idle-time test of the workers reads the new value from then on.
\<close>

theorem setInitThreadSize_unguarded:
  "initThreadSize (setInitThreadSize sz s) = sz
   \<and> setInitThreadSize sz s = s\<lparr>initThreadSize := sz\<rparr>
   \<and> isPoolRunning (setInitThreadSize sz s) = isPoolRunning s
   \<and> idle_retire_cond now w (setInitThreadSize sz s)
      = (THREAD_MAX_IDLE_TIME \<le> duration_cast_seconds (now - lastTime w)
         \<and> sint sz < sint (curThreadSize s))
   \<and> (isPoolRunning s \<longrightarrow>
        setMode m s = s \<and> setTaskQueMaxThreshHold c s = s \<and> setThreadSizeThreshHold c s = s)"
  by (simp add: setInitThreadSize_def setMode_def setTaskQueMaxThreshHold_def
      setThreadSizeThreshHold_def checkRunningState_def idle_retire_cond_def)

theorem setInitThreadSize_unguarded_witness:
  "isPoolRunning idle_state \<and> initThreadSize idle_state = 0
   \<and> initThreadSize (setInitThreadSize 7 idle_state) = 7
   \<and> isPoolRunning (setInitThreadSize 7 idle_state)
   \<and> setMode MODE_FIXED idle_state = idle_state
   \<and> idle_retire_cond 60000000000 \<lparr>threadid = 0, pc = WaitCached, lastTime = 0\<rparr> idle_state
   \<and> \<not> idle_retire_cond 60000000000 \<lparr>threadid = 0, pc = WaitCached, lastTime = 0\<rparr>
         (setInitThreadSize 1 idle_state)"
proof -
  have h: "isPoolRunning idle_state"
    by (simp add: idle_state_def idle_run_def run_defs)
  show ?thesis
    using setInitThreadSize_unguarded [of 7 idle_state 0 "\<lparr>threadid = 0, pc = WaitCached, lastTime = 0\<rparr>" MODE_FIXED 0]
      h
    by (simp add: idle_state_def idle_run_def run_defs)
qed

section \<open>Order of service\<close>



section \<open>The program of \<^verbatim>\<open>ThreadCpp/main.cpp\<close>\<close>

lemma main_get_0: "main_get 0 t0 t1 = Some (AnyULong 50000005000000)"
  by (simp add: main_get_def main_run_def run_defs upt_0_4)
lemma main_get_1: "main_get 1 t0 t1 = Some (AnyULong 50000005000000)"
proof -
  have "main_get (Suc 0) t0 t1 = Some (AnyULong 50000005000000)"
    by (simp add: main_get_def main_run_def run_defs upt_0_4)
  then show ?thesis by simp
qed
lemma main_get_2: "main_get 2 t0 t1 = Some (AnyULong 50000005000000)"
  by (simp add: main_get_def main_run_def run_defs upt_0_4)
lemma main_get_3: "main_get 3 t0 t1 = Some (AnyULong 50000005000000)"
  by (simp add: main_get_def main_run_def run_defs upt_0_4)

text \<open>Before a worker has run the task, \<^verbatim>\<open>get()\<close> waits.\<close>

lemma get_before_exec:
  "returned (Result_get 0 (heap (snd (exec_events step_cpp [Start 4, SubmitTask (0, 0) False] main_pool)))) = None"
  by (simp add: run_defs upt_0_4)

text \<open>
  C9, as amended. A fixed pool is started with 4 workers and receives one task that sums the
  integers from 1 to 10,000,000; whichever of the four workers runs it,
  \<^verbatim>\<open>get()\<close> on its handle returns 50,000,005,000,000.
\<close>

theorem main_get_sum:
  assumes "k \<in> {0, 1, 2, 3}"
  shows "main_get k t0 t1 = Some (AnyULong 50000005000000)"
  using assms main_get_0 main_get_1 main_get_2 main_get_3 by auto

theorem main_get_sum_witness:
  "(2 :: nat) \<in> {0, 1, 2, 3} \<and> main_get 2 5 7 = Some (AnyULong 50000005000000)"
  using main_get_sum [of 2 5 7] by simp

text \<open>The sum is not the 50,000,000,000 of the claim.\<close>

theorem main_get_sum_counterexample:
  "main_get 0 0 0 = Some (AnyULong 50000005000000)
   \<and> AnyULong 50000005000000 \<noteq> AnyULong 50000000000"
  by (simp add: main_get_def main_run_def run_defs upt_0_4)

end
